theory Spec2Isabelle
  imports Main "HOL-Library.Sublist" "HOL-Library.Multiset"
begin

section \<open>Python strings\<close>

text \<open>
  A Python \<open>str\<close> is modelled by an Isabelle \<open>string\<close>: a list of characters, each
  standing for the code point of the same number (0 to 255). The operations below are
  the ones \<open>1.py\<close> calls on strings, restricted to that range of code points.
\<close>

text \<open>\<open>str.isspace\<close> on one character: the white space of Unicode below 256.\<close>

definition py_isspace :: "char \<Rightarrow> bool" where
  "py_isspace c =
     (let n = (of_char c :: nat)
      in (9 \<le> n \<and> n \<le> 13) \<or> (28 \<le> n \<and> n \<le> 32) \<or> n = 133 \<or> n = 160)"

text \<open>\<open>s.strip()\<close>: leading and trailing white space removed.\<close>

definition py_strip :: "string \<Rightarrow> string" where
  "py_strip s = rev (dropWhile py_isspace (rev (dropWhile py_isspace s)))"

text \<open>\<open>s.startswith(p)\<close>.\<close>

fun startswith :: "string \<Rightarrow> string \<Rightarrow> bool" where
  "startswith s [] = True"
| "startswith [] (p # ps) = False"
| "startswith (c # cs) (p # ps) = (c = p \<and> startswith cs ps)"

text \<open>\<open>sub in s\<close>: \<open>sub\<close> occurs in \<open>s\<close> at some offset.\<close>

fun py_in :: "string \<Rightarrow> string \<Rightarrow> bool" where
  "py_in sub [] = (sub = [])"
| "py_in sub (c # cs) = (startswith (c # cs) sub \<or> py_in sub cs)"

text \<open>
  \<open>s.split(sep)\<close> for a separator of one character: the segments between the
  occurrences of the separator; the result is never empty (\<open>''.split('.')\<close> is \<open>['']\<close>).
\<close>

fun split_sep :: "char \<Rightarrow> string \<Rightarrow> string list" where
  "split_sep sep [] = [[]]"
| "split_sep sep (c # cs) =
     (if c = sep then [] # split_sep sep cs
      else (case split_sep sep cs of
              [] \<Rightarrow> [[c]]
            | w # ws \<Rightarrow> (c # w) # ws))"

text \<open>
  \<open>s.split()\<close> without a separator: the maximal runs of characters that are not white
  space, in order; white space at either end yields no empty string.
\<close>

function split_ws :: "string \<Rightarrow> string list" where
  "split_ws s =
     (case dropWhile py_isspace s of
        [] \<Rightarrow> []
      | c # cs \<Rightarrow>
          takeWhile (\<lambda>x. \<not> py_isspace x) (c # cs)
            # split_ws (dropWhile (\<lambda>x. \<not> py_isspace x) (c # cs)))"
  by pat_completeness auto
termination
proof (relation "measure length")
  show "wf (measure (length :: string \<Rightarrow> nat))"
    by simp
next
  fix s :: string and c cs
  assume d: "dropWhile py_isspace s = c # cs"
  then have nsp: "\<not> py_isspace c"
    by (metis hd_dropWhile list.distinct(1) list.sel(1))
  have "length (dropWhile (\<lambda>x. \<not> py_isspace x) (c # cs)) \<le> length cs"
    using nsp by (simp add: length_dropWhile_le)
  also have "length cs < length (c # cs)"
    by simp
  also have "length (c # cs) \<le> length s"
    using d length_dropWhile_le [of py_isspace s] by simp
  finally show "(dropWhile (\<lambda>x. \<not> py_isspace x) (c # cs), s) \<in> measure length"
    by simp
qed

declare split_ws.simps [simp del]

text \<open>\<open>sep.join(xs)\<close> for a separator of one character.\<close>

fun join_sep :: "char \<Rightarrow> string list \<Rightarrow> string" where
  "join_sep sep [] = []"
| "join_sep sep [w] = w"
| "join_sep sep (w # v # ws) = w @ sep # join_sep sep (v # ws)"

section \<open>Device records and their classification\<close>

text \<open>
  \<open>get_adb_devices_with_status\<close> builds every device as a dictionary with exactly the
  keys \<open>'id'\<close> and \<open>'status'\<close>, both strings.
\<close>

record device =
  id_dev :: string
  status_dev :: string

text \<open>The values stored in the dictionary that \<open>analyze_device\<close> returns.\<close>

datatype pyval = Str string | Bool bool

text \<open>
  \<open>analyze_device\<close> (lines 41 to 75). The result is a dictionary whose keys depend on
  the branch taken.
\<close>

definition analyze_device :: "device \<Rightarrow> (string \<rightharpoonup> pyval)" where
  "analyze_device device_info =
     (let device_id = id_dev device_info;
          status = status_dev device_info
      in if startswith device_id ''adb-'' then
           (let parts = split_sep (CHR ''.'') device_id
            in map_of
                 [(''type'', Str ''mdns_wireless''),
                  (''full_id'', Str device_id),
                  (''base_id'', Str (parts ! 0)),
                  (''service_type'', Str (if length parts > 1 then parts ! 1 else '''')),
                  (''protocol'', Str (if length parts > 2 then parts ! 2 else '''')),
                  (''is_encrypted'', Bool (py_in ''_tls-connect'' device_id)),
                  (''is_wireless'', Bool True),
                  (''status'', Str status)])
         else if CHR '':'' \<in> set device_id then
           map_of
             [(''type'', Str ''wireless''),
              (''id'', Str device_id),
              (''is_wireless'', Bool True),
              (''status'', Str status)]
         else
           map_of
             [(''type'', Str ''usb''),
              (''id'', Str device_id),
              (''is_wireless'', Bool False),
              (''status'', Str status)])"

section \<open>The world outside the program\<close>

text \<open>
  The exceptions that the calls of \<open>1.py\<close> can raise; all of them are subclasses of
  \<open>Exception\<close>, and \<open>UnicodeDecodeError\<close> is also a subclass of \<open>ValueError\<close>.
  Interrupts from outside (\<open>KeyboardInterrupt\<close>) and a \<open>print\<close> that fails are not
  part of the model.
\<close>

datatype exn = TimeoutExpired | OSError | UnicodeDecodeError | ValueError | EOFError

definition is_ValueError :: "exn \<Rightarrow> bool" where
  "is_ValueError e = (e = ValueError \<or> e = UnicodeDecodeError)"

text \<open>The \<open>CompletedProcess\<close> that \<open>subprocess.run\<close> returns with captured output.\<close>

record completed =
  returncode :: int
  stdout :: string
  stderr :: string

text \<open>What one call of \<open>subprocess.run\<close> comes to: an exception or a completed process.\<close>

type_synonym outcome = "exn + completed"

text \<open>
  The external tool is a parameter of the model: given the commands run so far with
  their outcomes, and the next command line, it tells the outcome of that command.
\<close>

type_synonym tool = "(string list \<times> outcome) list \<Rightarrow> string list \<Rightarrow> outcome"

text \<open>
  The lines the program writes, one constructor for each \<open>print\<close> and each prompt of
  \<open>input\<close> in the source (with the values it interpolates).
\<close>

datatype icon = Lock | Signal

datatype line =
    Adb_command_failed string  \<comment> \<open>line 18, with \<open>result.stderr\<close>\<close>
  | List_failed exn  \<comment> \<open>line 37\<close>
  | Connected_devices  \<comment> \<open>line 80\<close>
  | Rule  \<comment> \<open>lines 81 and 117\<close>
  | Online_title  \<comment> \<open>line 94\<close>
  | Online_mdns nat icon string  \<comment> \<open>line 99\<close>
  | Online_wireless nat string  \<comment> \<open>line 101\<close>
  | Online_usb nat string  \<comment> \<open>line 103\<close>
  | Offline_title  \<comment> \<open>line 107\<close>
  | Offline_mdns nat string  \<comment> \<open>line 111\<close>
  | Offline_wireless nat string  \<comment> \<open>line 113\<close>
  | Offline_usb nat string  \<comment> \<open>line 115\<close>
  | No_online_device  \<comment> \<open>line 124\<close>
  | Auto_select string  \<comment> \<open>line 128\<close>
  | Prompt_select  \<comment> \<open>the prompt of line 132\<close>
  | Invalid_choice  \<comment> \<open>line 136\<close>
  | Enter_a_number  \<comment> \<open>line 139\<close>
  | Try_reconnect string  \<comment> \<open>line 146\<close>
  | Reconnect_ok string  \<comment> \<open>line 165\<close>
  | Reconnect_failed string  \<comment> \<open>line 168, with \<open>result.stderr\<close>\<close>
  | Check_usb  \<comment> \<open>line 171\<close>
  | Reconnect_error exn  \<comment> \<open>line 175\<close>
  | No_device_found  \<comment> \<open>line 185\<close>
  | All_offline  \<comment> \<open>line 192\<close>
  | Prompt_reconnect  \<comment> \<open>the prompt of line 193\<close>
  | Selected_title  \<comment> \<open>line 208\<close>
  | Selected_id string  \<comment> \<open>line 209\<close>
  | Selected_type "pyval option"  \<comment> \<open>line 210\<close>
  | Selected_status "pyval option"  \<comment> \<open>line 211\<close>
  | Selected_wireless "pyval option"  \<comment> \<open>line 212\<close>
  | Selected_encrypted  \<comment> \<open>line 214\<close>

text \<open>
  The state threaded through the program: the lines still waiting on standard input,
  the lines written so far, and the commands run so far with their outcomes.
\<close>

record world =
  stdin :: "string list"
  console :: "line list"
  calls :: "(string list \<times> outcome) list"

definition print :: "line \<Rightarrow> world \<Rightarrow> world" where
  "print l w = w\<lparr>console := console w @ [l]\<rparr>"

text \<open>\<open>input(prompt)\<close>: writes the prompt, then reads one line; end of input raises.\<close>

definition input :: "line \<Rightarrow> world \<Rightarrow> (exn + string) \<times> world" where
  "input prompt w =
     (case stdin w of
        [] \<Rightarrow> (Inl EOFError, print prompt w)
      | l # ls \<Rightarrow> (Inr l, (print prompt w)\<lparr>stdin := ls\<rparr>))"

text \<open>\<open>subprocess.run(argv, capture_output=True, ...)\<close>.\<close>

definition run :: "tool \<Rightarrow> string list \<Rightarrow> world \<Rightarrow> outcome \<times> world" where
  "run adb argv w =
     (let r = adb (calls w) argv
      in (r, w\<lparr>calls := calls w @ [(argv, r)]\<rparr>))"

section \<open>Listing the devices\<close>

text \<open>The loop of lines 25 to 32 over the lines after the first, appending to \<open>devices\<close>.\<close>

fun parse_lines :: "string list \<Rightarrow> device list \<Rightarrow> device list" where
  "parse_lines [] devices = devices"
| "parse_lines (l # rest) devices =
     (let line = py_strip l
      in if line \<noteq> [] then
           (let parts = split_ws line
            in if length parts \<ge> 2 then
                 parse_lines rest
                   (devices @ [\<lparr>id_dev = parts ! 0, status_dev = parts ! 1\<rparr>])
               else parse_lines rest devices)
         else parse_lines rest devices)"

text \<open>Lines 21 to 34: what is returned for the captured output of a successful run.\<close>

definition parse_devices :: "string \<Rightarrow> device list" where
  "parse_devices out =
     (let lines = split_sep (CHR 0x0A) (py_strip out)
      in parse_lines (drop 1 lines) [])"

definition devices_cmd :: "string list" where
  "devices_cmd = [''adb'', ''devices'']"

text \<open>The body of the \<open>try\<close> block of \<open>get_adb_devices_with_status\<close> (lines 9 to 34).\<close>

definition get_adb_devices_body :: "tool \<Rightarrow> world \<Rightarrow> (exn + device list) \<times> world" where
  "get_adb_devices_body adb w =
     (case run adb devices_cmd w of
        (Inl e, w1) \<Rightarrow> (Inl e, w1)
      | (Inr result, w1) \<Rightarrow>
          if returncode result \<noteq> 0
          then (Inr [], print (Adb_command_failed (stderr result)) w1)
          else (Inr (parse_devices (stdout result)), w1))"

text \<open>\<open>get_adb_devices_with_status\<close>: the body under \<open>except Exception\<close> (lines 36 to 38).\<close>

definition get_adb_devices_with_status :: "tool \<Rightarrow> world \<Rightarrow> device list \<times> world" where
  "get_adb_devices_with_status adb w =
     (case get_adb_devices_body adb w of
        (Inl e, w1) \<Rightarrow> ([], print (List_failed e) w1)
      | (Inr devices, w1) \<Rightarrow> (devices, w1))"

section \<open>Showing the devices\<close>

text \<open>The loop of lines 86 to 90, appending to one of the two lists.\<close>

fun split_online :: "device list \<Rightarrow> device list \<times> device list \<Rightarrow> device list \<times> device list" where
  "split_online [] (online_devices, offline_devices) = (online_devices, offline_devices)"
| "split_online (device # rest) (online_devices, offline_devices) =
     (if status_dev device = ''device''
      then split_online rest (online_devices @ [device], offline_devices)
      else split_online rest (online_devices, offline_devices @ [device]))"

text \<open>\<open>info.get('is_encrypted', False)\<close>, read as a truth value.\<close>

definition get_is_encrypted :: "(string \<rightharpoonup> pyval) \<Rightarrow> bool" where
  "get_is_encrypted info =
     (case info ''is_encrypted'' of
        None \<Rightarrow> False
      | Some (Bool b) \<Rightarrow> b
      | Some (Str s) \<Rightarrow> s \<noteq> [])"

text \<open>The loop of lines 95 to 103, counting from \<open>i\<close>.\<close>

fun show_online :: "nat \<Rightarrow> device list \<Rightarrow> world \<Rightarrow> world" where
  "show_online i [] w = w"
| "show_online i (device # rest) w =
     (let info = analyze_device device;
          status_icon = (if get_is_encrypted info then Lock else Signal)
      in if info ''type'' = Some (Str ''mdns_wireless'')
         then show_online (Suc i) rest (print (Online_mdns i status_icon (id_dev device)) w)
         else if info ''type'' = Some (Str ''wireless'')
         then show_online (Suc i) rest (print (Online_wireless i (id_dev device)) w)
         else show_online (Suc i) rest (print (Online_usb i (id_dev device)) w))"

text \<open>The loop of lines 108 to 115, counting from \<open>i\<close>.\<close>

fun show_offline :: "nat \<Rightarrow> device list \<Rightarrow> world \<Rightarrow> world" where
  "show_offline i [] w = w"
| "show_offline i (device # rest) w =
     (let info = analyze_device device
      in if info ''type'' = Some (Str ''mdns_wireless'')
         then show_offline (Suc i) rest (print (Offline_mdns i (id_dev device)) w)
         else if info ''type'' = Some (Str ''wireless'')
         then show_offline (Suc i) rest (print (Offline_wireless i (id_dev device)) w)
         else show_offline (Suc i) rest (print (Offline_usb i (id_dev device)) w))"

text \<open>\<open>display_devices\<close> (lines 78 to 118).\<close>

definition display_devices :: "device list \<Rightarrow> world \<Rightarrow> (device list \<times> device list) \<times> world" where
  "display_devices devices w =
     (let w1 = print Rule (print Connected_devices w);
          (online_devices, offline_devices) = split_online devices ([], []);
          w2 = (if online_devices \<noteq> []
                then show_online 1 online_devices (print Online_title w1)
                else w1);
          w3 = (if offline_devices \<noteq> []
                then show_offline (length online_devices + 1) offline_devices
                       (print Offline_title w2)
                else w2)
      in ((online_devices, offline_devices), print Rule w3))"

section \<open>Selecting an online device\<close>

text \<open>
  \<open>int(s)\<close> on a string, in base ten: white space at both ends is dropped, one sign
  may come first, then decimal digits, where a single underscore may stand between two
  digits. Anything else raises \<open>ValueError\<close>, modelled as \<open>None\<close>.

  The white space that \<open>int\<close> drops is not that of \<open>str.strip\<close>: of the characters
  below 128 only the white space of C (9 to 13, and 32) is skipped, so the separators
  28 to 31 make the string invalid; the spaces 133 and 160 are turned into blanks first
  and skipped.
\<close>

definition int_isspace :: "char \<Rightarrow> bool" where
  "int_isspace c =
     (let n = (of_char c :: nat)
      in (9 \<le> n \<and> n \<le> 13) \<or> n = 32 \<or> n = 133 \<or> n = 160)"

definition int_strip :: "string \<Rightarrow> string" where
  "int_strip s = rev (dropWhile int_isspace (rev (dropWhile int_isspace s)))"

text \<open>
  The interpreter's limit on the length of a decimal string (\<open>sys.int_info\<close>,
  \<open>default_max_str_digits\<close>); \<open>1.py\<close> does not change it. A string with more digit
  characters than that raises \<open>ValueError\<close>; underscores do not count, leading zeros
  do.
\<close>

definition max_str_digits :: nat where
  "max_str_digits = 4300"

definition is_digit :: "char \<Rightarrow> bool" where
  "is_digit c = (let n = (of_char c :: nat) in 48 \<le> n \<and> n \<le> 57)"

definition digit_val :: "char \<Rightarrow> nat" where
  "digit_val c = of_char c - 48"

fun digits_acc :: "nat \<Rightarrow> string \<Rightarrow> nat option" where
  "digits_acc acc [] = Some acc"
| "digits_acc acc (c # cs) =
     (if is_digit c then digits_acc (10 * acc + digit_val c) cs
      else if c = CHR ''_'' then
        (case cs of
           [] \<Rightarrow> None
         | d # ds \<Rightarrow> if is_digit d then digits_acc acc cs else None)
      else None)"

definition py_digits :: "string \<Rightarrow> nat option" where
  "py_digits s =
     (case s of
        [] \<Rightarrow> None
      | c # cs \<Rightarrow>
          if is_digit c \<and> length (filter is_digit s) \<le> max_str_digits
          then digits_acc 0 s else None)"

definition py_int :: "string \<Rightarrow> int option" where
  "py_int s =
     (case int_strip s of
        [] \<Rightarrow> None
      | c # cs \<Rightarrow>
          if c = CHR ''-'' then map_option (\<lambda>n. - int n) (py_digits cs)
          else if c = CHR ''+'' then map_option int (py_digits cs)
          else map_option int (py_digits (c # cs)))"

text \<open>
  \<open>select_online_device\<close> (lines 121 to 140). Only \<open>ValueError\<close> is caught: the
  \<open>EOFError\<close> of \<open>input\<close> at the end of standard input leaves the function.
\<close>

definition select_online_device :: "device list \<Rightarrow> world \<Rightarrow> (exn + device option) \<times> world" where
  "select_online_device online_devices w =
     (if online_devices = [] then (Inr None, print No_online_device w)
      else if length online_devices = 1 then
        (Inr (Some (online_devices ! 0)),
         print (Auto_select (id_dev (online_devices ! 0))) w)
      else
        (case input Prompt_select w of
           (Inl e, w1) \<Rightarrow>
             if is_ValueError e then (Inr None, print Enter_a_number w1) else (Inl e, w1)
         | (Inr s, w1) \<Rightarrow>
             (case py_int s of
                None \<Rightarrow> (Inr None, print Enter_a_number w1)
              | Some choice \<Rightarrow>
                  if 1 \<le> choice \<and> choice \<le> int (length online_devices)
                  then (Inr (Some (online_devices ! nat (choice - 1))), w1)
                  else (Inr None, print Invalid_choice w1))))"

section \<open>Reconnecting an offline device\<close>

definition disconnect_cmd :: "string \<Rightarrow> string list" where
  "disconnect_cmd device_id = [''adb'', ''disconnect'', device_id]"

definition connect_cmd :: "string \<Rightarrow> string list" where
  "connect_cmd device_id = [''adb'', ''connect'', device_id]"

text \<open>The body of the \<open>try\<close> block of \<open>reconnect_offline_device\<close> (lines 150 to 172).\<close>

definition reconnect_body :: "tool \<Rightarrow> string \<Rightarrow> world \<Rightarrow> (exn + bool) \<times> world" where
  "reconnect_body adb device_id w =
     (case run adb (disconnect_cmd device_id) w of
        (Inl e, w1) \<Rightarrow> (Inl e, w1)
      | (Inr _, w1) \<Rightarrow>
          if CHR '':'' \<in> set device_id \<or> startswith device_id ''adb-'' then
            (case run adb (connect_cmd device_id) w1 of
               (Inl e, w2) \<Rightarrow> (Inl e, w2)
             | (Inr result, w2) \<Rightarrow>
                 if py_in ''connected'' (stdout result)
                 then (Inr True, print (Reconnect_ok device_id) w2)
                 else (Inr False, print (Reconnect_failed (stderr result)) w2))
          else (Inr False, print Check_usb w1))"

text \<open>\<open>reconnect_offline_device\<close> (lines 143 to 176): the body under \<open>except Exception\<close>.\<close>

definition reconnect_offline_device :: "tool \<Rightarrow> device \<Rightarrow> world \<Rightarrow> bool \<times> world" where
  "reconnect_offline_device adb device_info w =
     (let device_id = id_dev device_info
      in case reconnect_body adb device_id (print (Try_reconnect device_id) w) of
           (Inl e, w1) \<Rightarrow> (False, print (Reconnect_error e) w1)
         | (Inr ok, w1) \<Rightarrow> (ok, w1))"

section \<open>The main function\<close>

text \<open>\<open>s.lower()\<close> on the code points below 256.\<close>

definition py_lower_char :: "char \<Rightarrow> char" where
  "py_lower_char c =
     (let n = (of_char c :: nat)
      in if (65 \<le> n \<and> n \<le> 90) \<or> (192 \<le> n \<and> n \<le> 222 \<and> n \<noteq> 215)
         then char_of (n + 32) else c)"

definition py_lower :: "string \<Rightarrow> string" where
  "py_lower s = map py_lower_char s"

text \<open>
  The loop of lines 195 to 201 over the offline devices; \<open>online_devices\<close> is the
  variable the loop may assign, and \<open>break\<close> ends the recursion.
\<close>

fun reconnect_loop :: "tool \<Rightarrow> device list \<Rightarrow> device list \<Rightarrow> world \<Rightarrow> device list \<times> world" where
  "reconnect_loop adb [] online_devices w = (online_devices, w)"
| "reconnect_loop adb (device # rest) online_devices w =
     (case reconnect_offline_device adb device w of
        (True, w1) \<Rightarrow>
          (case get_adb_devices_with_status adb w1 of
             (devices, w2) \<Rightarrow>
               (case display_devices devices w2 of
                  ((online_devices', _), w3) \<Rightarrow>
                    if online_devices' \<noteq> [] then (online_devices', w3)
                    else reconnect_loop adb rest online_devices' w3))
      | (False, w1) \<Rightarrow> reconnect_loop adb rest online_devices w1)"

text \<open>Lines 191 to 201: the optional pass over the offline devices.\<close>

definition main_reconnect ::
  "tool \<Rightarrow> device list \<Rightarrow> device list \<Rightarrow> world \<Rightarrow> (exn + device list) \<times> world" where
  "main_reconnect adb online_devices offline_devices w =
     (if online_devices = [] \<and> offline_devices \<noteq> [] then
        (case input Prompt_reconnect (print All_offline w) of
           (Inl e, w1) \<Rightarrow> (Inl e, w1)
         | (Inr choice, w1) \<Rightarrow>
             if py_lower choice = ''y''
             then (case reconnect_loop adb offline_devices online_devices w1 of
                     (online_devices', w2) \<Rightarrow> (Inr online_devices', w2))
             else (Inr online_devices, w1))
      else (Inr online_devices, w))"

text \<open>Lines 206 to 218: the report on the selected device and the value returned.\<close>

definition main_report :: "device option \<Rightarrow> world \<Rightarrow> string option \<times> world" where
  "main_report selected_device w =
     (case selected_device of
        None \<Rightarrow> (None, w)
      | Some sel \<Rightarrow>
          (let device_info = analyze_device sel;
               w1 = print (Selected_id (id_dev sel)) (print Selected_title w);
               w2 = print (Selected_type (device_info ''type'')) w1;
               w3 = print (Selected_status (device_info ''status'')) w2;
               w4 = print (Selected_wireless (device_info ''is_wireless'')) w3;
               w5 = (if get_is_encrypted device_info then print Selected_encrypted w4 else w4)
           in (Some (id_dev sel), w5)))"

text \<open>
  \<open>main\<close> (lines 180 to 218). The statements under \<open>if __name__ == "__main__"\<close> that
  follow the call of \<open>main\<close> are not part of it.
\<close>

definition main :: "tool \<Rightarrow> world \<Rightarrow> (exn + string option) \<times> world" where
  "main adb w =
     (case get_adb_devices_with_status adb w of
        (devices, w1) \<Rightarrow>
          if devices = [] then (Inr None, print No_device_found w1)
          else
            (case display_devices devices w1 of
               ((online_devices, offline_devices), w2) \<Rightarrow>
                 (case main_reconnect adb online_devices offline_devices w2 of
                    (Inl e, w3) \<Rightarrow> (Inl e, w3)
                  | (Inr online_devices', w3) \<Rightarrow>
                      (case select_online_device online_devices' w3 of
                         (Inl e, w4) \<Rightarrow> (Inl e, w4)
                       | (Inr selected_device, w4) \<Rightarrow>
                           (case main_report selected_device w4 of
                              (r, w5) \<Rightarrow> (Inr r, w5))))))"

section \<open>The parser as the specification words it\<close>

text \<open>
  A second description of the parser, following the words of the specification and
  not the code: the first line is skipped; of the remaining lines the non-blank ones
  are split on white space, and every line with at least two tokens gives a record of
  its first two tokens. It is compared with \<open>parse_devices\<close> below.
\<close>

definition spec_nonblank :: "string \<Rightarrow> bool" where
  "spec_nonblank l = (\<exists>c\<in>set l. \<not> py_isspace c)"

definition spec_record :: "string \<Rightarrow> device" where
  "spec_record l = \<lparr>id_dev = split_ws l ! 0, status_dev = split_ws l ! 1\<rparr>"

definition spec_parse_lines :: "string list \<Rightarrow> device list" where
  "spec_parse_lines ls =
     map spec_record (filter (\<lambda>l. 2 \<le> length (split_ws l)) (filter spec_nonblank ls))"

definition spec_parse :: "string \<Rightarrow> device list" where
  "spec_parse out = spec_parse_lines (tl (split_sep (CHR 0x0A) out))"

section \<open>The log of commands\<close>

text \<open>A command line of the form \<open>adb disconnect id\<close>.\<close>

definition is_disconnect :: "string list \<Rightarrow> bool" where
  "is_disconnect argv = (length argv = 3 \<and> take 2 argv = [''adb'', ''disconnect''])"

text \<open>
  An entry of the log that is a successful reconnection: a command \<open>adb connect id\<close>
  that completed with \<open>connected\<close> in its standard output.
\<close>

definition connected_ok :: "string list \<times> outcome \<Rightarrow> bool" where
  "connected_ok e =
     (length (fst e) = 3 \<and> take 2 (fst e) = [''adb'', ''connect''] \<and>
      (case snd e of Inl x \<Rightarrow> False | Inr r \<Rightarrow> py_in ''connected'' (stdout r)))"

text \<open>
  An entry of the log that is a listing with an online device: the listing command,
  completed with exit code zero, with a device of status \<open>device\<close> in its output.
\<close>

definition shows_online :: "string list \<times> outcome \<Rightarrow> bool" where
  "shows_online e =
     (fst e = devices_cmd \<and>
      (case snd e of
         Inl x \<Rightarrow> False
       | Inr r \<Rightarrow>
           returncode r = 0 \<and>
           filter (\<lambda>d. status_dev d = ''device'') (parse_devices (stdout r)) \<noteq> []))"

text \<open>
  The shape of the commands run by the pass over the offline devices: a successful
  reconnection is followed at once by a listing, a listing comes only right after a
  successful reconnection, and a listing with an online device is the last command.
\<close>

definition good_log :: "(string list \<times> outcome) list \<Rightarrow> bool" where
  "good_log new =
     ((\<forall>i<length new. connected_ok (new ! i) \<longrightarrow>
          Suc i < length new \<and> fst (new ! Suc i) = devices_cmd) \<and>
      (\<forall>i<length new. fst (new ! i) = devices_cmd \<longrightarrow>
          0 < i \<and> connected_ok (new ! (i - 1))) \<and>
      (\<forall>e\<in>set (butlast new). \<not> shows_online e))"

section \<open>Concrete devices, tools and states\<close>

text \<open>A state with nothing on standard input, nothing written and no command run.\<close>

definition empty_world :: world where
  "empty_world = \<lparr>stdin = [], console = [], calls = []\<rparr>"

text \<open>A tool every command of which runs into the timeout.\<close>

definition adb_timeout :: tool where
  "adb_timeout history argv = Inl TimeoutExpired"

text \<open>A tool every command of which exits with code 1.\<close>

definition adb_exit_1 :: tool where
  "adb_exit_1 history argv = Inr \<lparr>returncode = 1, stdout = [], stderr = ''error: no adb''\<rparr>"

text \<open>A tool every command of which succeeds and prints nothing.\<close>

definition adb_quiet :: tool where
  "adb_quiet history argv = Inr \<lparr>returncode = 0, stdout = [], stderr = []\<rparr>"

text \<open>A tool every command of which succeeds and reports a connection.\<close>

definition adb_connects :: tool where
  "adb_connects history argv =
     Inr \<lparr>returncode = 0, stdout = ''connected to 10.0.0.2:5555'', stderr = []\<rparr>"

definition usb_device :: device where
  "usb_device = \<lparr>id_dev = ''R58M'', status_dev = ''offline''\<rparr>"

definition wifi_device :: device where
  "wifi_device = \<lparr>id_dev = ''10.0.0.2:5555'', status_dev = ''offline''\<rparr>"

text \<open>The listing of two devices: a header line and two lines of devices.\<close>

definition example_listing :: string where
  "example_listing =
     ''List of devices attached'' @ [CHR 0x0A] @
     ''192.168.1.5:5555    device'' @ [CHR 0x0A] @
     ''adb-ABC123._adb-tls-connect._tcp.   offline'' @ [CHR 0x0A]"

text \<open>A tool every command of which succeeds and prints that listing.\<close>

definition adb_example :: tool where
  "adb_example history argv = Inr \<lparr>returncode = 0, stdout = example_listing, stderr = []\<rparr>"

text \<open>A listing whose first line is blank, with the header on the second line.\<close>

definition listing_blank_first :: string where
  "listing_blank_first =
     [CHR 0x0A] @ ''List of devices attached'' @ [CHR 0x0A] @ ''R58M device'' @ [CHR 0x0A]"

definition adb_blank_first :: tool where
  "adb_blank_first history argv =
     Inr \<lparr>returncode = 0, stdout = listing_blank_first, stderr = []\<rparr>"

text \<open>A tool whose disconnect command runs into the timeout; any other command
  succeeds and reports a connection.\<close>

definition adb_disconnect_timeout :: tool where
  "adb_disconnect_timeout history argv =
     (if is_disconnect argv then Inl TimeoutExpired
      else Inr \<lparr>returncode = 0, stdout = ''connected to 10.0.0.2:5555'', stderr = []\<rparr>)"

text \<open>A tool whose disconnect command succeeds; any other command runs into the
  timeout.\<close>

definition adb_connect_timeout :: tool where
  "adb_connect_timeout history argv =
     (if is_disconnect argv then Inr \<lparr>returncode = 0, stdout = [], stderr = []\<rparr>
      else Inl TimeoutExpired)"

text \<open>A tool that lists one offline device with a serial number.\<close>

definition listing_usb_offline :: string where
  "listing_usb_offline = ''List of devices attached'' @ [CHR 0x0A] @ ''R58M offline''"

definition adb_usb_offline :: tool where
  "adb_usb_offline history argv =
     (if argv = devices_cmd
      then Inr \<lparr>returncode = 0, stdout = listing_usb_offline, stderr = []\<rparr>
      else Inr \<lparr>returncode = 0, stdout = [], stderr = []\<rparr>)"

text \<open>
  A tool that lists one wireless device, offline in the first listing and online in
  every later one, and reports a connection to it.
\<close>

definition listing_wifi_offline :: string where
  "listing_wifi_offline = ''List of devices attached'' @ [CHR 0x0A] @ ''10.0.0.2:5555 offline''"

definition listing_wifi_online :: string where
  "listing_wifi_online = ''List of devices attached'' @ [CHR 0x0A] @ ''10.0.0.2:5555 device''"

definition adb_wifi_back :: tool where
  "adb_wifi_back history argv =
     (if argv = devices_cmd then
        Inr \<lparr>returncode = 0,
             stdout = (if history = [] then listing_wifi_offline else listing_wifi_online),
             stderr = []\<rparr>
      else if argv = connect_cmd ''10.0.0.2:5555'' then
        Inr \<lparr>returncode = 0, stdout = ''connected to 10.0.0.2:5555'', stderr = []\<rparr>
      else Inr \<lparr>returncode = 0, stdout = [], stderr = []\<rparr>)"

text \<open>A state in which the user answers \<open>y\<close>.\<close>

definition confirm_world :: world where
  "confirm_world = \<lparr>stdin = [''y''], console = [], calls = []\<rparr>"

section \<open>Facts about the string operations\<close>

lemma startswith_iff: "startswith s p \<longleftrightarrow> (\<exists>r. s = p @ r)"
  by (induction s p rule: startswith.induct) auto

lemma py_in_iff: "py_in sub s \<longleftrightarrow> (\<exists>a b. s = a @ sub @ b)"
proof (induction s)
  case Nil
  show ?case by auto
next
  case (Cons c cs)
  show ?case
  proof
    assume "py_in sub (c # cs)"
    then consider "startswith (c # cs) sub" | "py_in sub cs"
      by auto
    then show "\<exists>a b. c # cs = a @ sub @ b"
    proof cases
      case 1
      then obtain r where "c # cs = sub @ r"
        by (auto simp: startswith_iff)
      then have "c # cs = [] @ sub @ r"
        by simp
      then show ?thesis by blast
    next
      case 2
      with Cons.IH obtain a b where "cs = a @ sub @ b"
        by auto
      then have "c # cs = (c # a) @ sub @ b"
        by simp
      then show ?thesis by blast
    qed
  next
    assume "\<exists>a b. c # cs = a @ sub @ b"
    then obtain a b where ab: "c # cs = a @ sub @ b"
      by blast
    show "py_in sub (c # cs)"
    proof (cases a)
      case Nil
      with ab have "startswith (c # cs) sub"
        by (auto simp: startswith_iff)
      then show ?thesis by simp
    next
      case (Cons a0 as)
      with ab have "cs = as @ sub @ b"
        by simp
      with Cons.IH have "py_in sub cs"
        by blast
      then show ?thesis by simp
    qed
  qed
qed

lemma split_sep_nonempty: "split_sep sep s \<noteq> []"
  by (induction s) (auto split: list.splits)

lemma split_sep_no_sep: "w \<in> set (split_sep sep s) \<Longrightarrow> sep \<notin> set w"
proof (induction s arbitrary: w)
  case Nil
  then show ?case by simp
next
  case (Cons c cs)
  show ?case
  proof (cases "c = sep")
    case True
    with Cons show ?thesis by auto
  next
    case False
    obtain v vs where vs: "split_sep sep cs = v # vs"
      using split_sep_nonempty [of sep cs] by (cases "split_sep sep cs") auto
    with False Cons.prems have "w = c # v \<or> w \<in> set vs"
      by auto
    then show ?thesis
    proof
      assume "w = c # v"
      moreover have "sep \<notin> set v"
        using Cons.IH [of v] vs by simp
      ultimately show ?thesis using False by auto
    next
      assume "w \<in> set vs"
      then show ?thesis using Cons.IH [of w] vs by simp
    qed
  qed
qed

lemma join_sep_Cons:
  "ws \<noteq> [] \<Longrightarrow> join_sep sep (w # ws) = w @ sep # join_sep sep ws"
  by (cases ws) auto

lemma join_split_sep: "join_sep sep (split_sep sep s) = s"
proof (induction s)
  case Nil
  show ?case by simp
next
  case (Cons c cs)
  obtain v vs where vs: "split_sep sep cs = v # vs"
    using split_sep_nonempty [of sep cs] by (cases "split_sep sep cs") auto
  show ?case
  proof (cases "c = sep")
    case True
    then show ?thesis
      using Cons.IH split_sep_nonempty [of sep cs] by (simp add: join_sep_Cons)
  next
    case False
    have "join_sep sep ((c # v) # vs) = c # join_sep sep (v # vs)"
      by (cases vs) auto
    with False vs Cons.IH show ?thesis by simp
  qed
qed

section \<open>Classification\<close>

text \<open>
  Claim C1. \<open>analyze_device\<close> puts every record into exactly one of three variants, by
  the form of its id alone: an id that starts with \<open>adb-\<close> has type \<open>mdns_wireless\<close>, and
  its \<open>is_encrypted\<close> is true exactly when \<open>_tls-connect\<close> occurs somewhere in the id;
  any other id that contains a colon has type \<open>wireless\<close>; every remaining id has type
  \<open>usb\<close>.
\<close>

theorem analyze_device_variants:
  "((\<exists>r. id_dev d = ''adb-'' @ r) \<longrightarrow>
      analyze_device d ''type'' = Some (Str ''mdns_wireless'') \<and>
      analyze_device d ''is_encrypted'' =
        Some (Bool (\<exists>a b. id_dev d = a @ ''_tls-connect'' @ b))) \<and>
   (\<not> (\<exists>r. id_dev d = ''adb-'' @ r) \<and> CHR '':'' \<in> set (id_dev d) \<longrightarrow>
      analyze_device d ''type'' = Some (Str ''wireless'')) \<and>
   (\<not> (\<exists>r. id_dev d = ''adb-'' @ r) \<and> CHR '':'' \<notin> set (id_dev d) \<longrightarrow>
      analyze_device d ''type'' = Some (Str ''usb''))"
proof -
  have p: "startswith (id_dev d) ''adb-'' \<longleftrightarrow> (\<exists>r. id_dev d = ''adb-'' @ r)"
    by (rule startswith_iff)
  have m: "py_in ''_tls-connect'' (id_dev d) \<longleftrightarrow> (\<exists>a b. id_dev d = a @ ''_tls-connect'' @ b)"
    by (rule py_in_iff)
  show ?thesis
    unfolding p [symmetric] m [symmetric]
    by (simp add: analyze_device_def Let_def)
qed

theorem analyze_device_variants_witness:
  "(\<exists>r. id_dev \<lparr>id_dev = ''adb-1._tls-connect'', status_dev = ''device''\<rparr> = ''adb-'' @ r) \<and>
   analyze_device \<lparr>id_dev = ''adb-1._tls-connect'', status_dev = ''device''\<rparr> ''type''
     = Some (Str ''mdns_wireless'') \<and>
   analyze_device \<lparr>id_dev = ''adb-1._tls-connect'', status_dev = ''device''\<rparr> ''is_encrypted''
     = Some (Bool True) \<and>
   \<not> (\<exists>r. id_dev \<lparr>id_dev = ''10.0.0.2:5555'', status_dev = ''offline''\<rparr> = ''adb-'' @ r) \<and>
   CHR '':'' \<in> set (id_dev \<lparr>id_dev = ''10.0.0.2:5555'', status_dev = ''offline''\<rparr>) \<and>
   analyze_device \<lparr>id_dev = ''10.0.0.2:5555'', status_dev = ''offline''\<rparr> ''type''
     = Some (Str ''wireless'') \<and>
   \<not> (\<exists>r. id_dev \<lparr>id_dev = ''R58M'', status_dev = ''device''\<rparr> = ''adb-'' @ r) \<and>
   CHR '':'' \<notin> set (id_dev \<lparr>id_dev = ''R58M'', status_dev = ''device''\<rparr>) \<and>
   analyze_device \<lparr>id_dev = ''R58M'', status_dev = ''device''\<rparr> ''type'' = Some (Str ''usb'')"
proof -
  have e: "\<exists>a b. ''adb-1._tls-connect'' = a @ ''_tls-connect'' @ b"
  proof -
    have "''adb-1._tls-connect'' = ''adb-1.'' @ ''_tls-connect'' @ []"
      by simp
    then show ?thesis by blast
  qed
  show ?thesis
    using e
      analyze_device_variants [of "\<lparr>id_dev = ''adb-1._tls-connect'', status_dev = ''device''\<rparr>"]
      analyze_device_variants [of "\<lparr>id_dev = ''10.0.0.2:5555'', status_dev = ''offline''\<rparr>"]
      analyze_device_variants [of "\<lparr>id_dev = ''R58M'', status_dev = ''device''\<rparr>"]
    by simp
qed

lemma split_sep_no_occurrence: "sep \<notin> set w \<Longrightarrow> split_sep sep w = [w]"
  by (induction w) auto

lemma split_sep_append_sep:
  "sep \<notin> set w \<Longrightarrow> split_sep sep (w @ sep # s) = w # split_sep sep s"
  by (induction w) auto

lemma split_join_sep:
  "parts \<noteq> [] \<Longrightarrow> \<forall>p\<in>set parts. sep \<notin> set p \<Longrightarrow>
   split_sep sep (join_sep sep parts) = parts"
proof (induction sep parts rule: join_sep.induct)
  case (1 sep)
  then show ?case by simp
next
  case (2 sep w)
  then show ?case by (simp add: split_sep_no_occurrence)
next
  case (3 sep w v ws)
  then show ?case by (simp add: split_sep_append_sep)
qed

text \<open>
  Claim C9. For an id that starts with \<open>adb-\<close>, let \<open>parts\<close> be its segments between
  the dots (the one non-empty list of dot-free strings that joined by dots give the
  id). Then \<open>base_id\<close> is the first segment, \<open>service_type\<close> the second when there is
  one and the empty string otherwise, \<open>protocol\<close> the third when there is one and the
  empty string otherwise; the status is copied. The result is a function of the id and
  the status alone.
\<close>

theorem analyze_device_mdns_fields:
  assumes "\<exists>r. id_dev d = ''adb-'' @ r"
    and "parts \<noteq> []"
    and "\<forall>p\<in>set parts. CHR ''.'' \<notin> set p"
    and "join_sep (CHR ''.'') parts = id_dev d"
  shows "analyze_device d ''base_id'' = Some (Str (parts ! 0)) \<and>
         analyze_device d ''service_type'' =
           Some (Str (if 1 < length parts then parts ! 1 else [])) \<and>
         analyze_device d ''protocol'' =
           Some (Str (if 2 < length parts then parts ! 2 else [])) \<and>
         analyze_device d ''full_id'' = Some (Str (id_dev d)) \<and>
         analyze_device d ''status'' = Some (Str (status_dev d))"
proof -
  have s: "startswith (id_dev d) ''adb-''"
    using assms(1) by (simp only: startswith_iff)
  have p: "split_sep (CHR ''.'') (id_dev d) = parts"
    using split_join_sep [OF assms(2,3)] assms(4) by simp
  show ?thesis
    using s p by (simp add: analyze_device_def Let_def)
qed

theorem analyze_device_mdns_fields_witness:
  "(\<exists>r. id_dev \<lparr>id_dev = ''adb-AB._adb-tls-connect._tcp'', status_dev = ''offline''\<rparr> = ''adb-'' @ r) \<and>
   [''adb-AB'', ''_adb-tls-connect'', ''_tcp''] \<noteq> [] \<and>
   CHR ''.'' \<notin> set ''adb-AB'' \<and> CHR ''.'' \<notin> set ''_adb-tls-connect'' \<and> CHR ''.'' \<notin> set ''_tcp'' \<and>
   join_sep (CHR ''.'') [''adb-AB'', ''_adb-tls-connect'', ''_tcp'']
     = id_dev \<lparr>id_dev = ''adb-AB._adb-tls-connect._tcp'', status_dev = ''offline''\<rparr> \<and>
   analyze_device \<lparr>id_dev = ''adb-AB._adb-tls-connect._tcp'', status_dev = ''offline''\<rparr> ''base_id''
     = Some (Str ''adb-AB'') \<and>
   analyze_device \<lparr>id_dev = ''adb-AB._adb-tls-connect._tcp'', status_dev = ''offline''\<rparr> ''service_type''
     = Some (Str ''_adb-tls-connect'') \<and>
   analyze_device \<lparr>id_dev = ''adb-AB._adb-tls-connect._tcp'', status_dev = ''offline''\<rparr> ''protocol''
     = Some (Str ''_tcp'') \<and>
   analyze_device \<lparr>id_dev = ''adb-AB._adb-tls-connect._tcp'', status_dev = ''offline''\<rparr> ''status''
     = Some (Str ''offline'')"
proof -
  have a: "\<exists>r. id_dev \<lparr>id_dev = ''adb-AB._adb-tls-connect._tcp'', status_dev = ''offline''\<rparr> = ''adb-'' @ r"
    by simp
  have b: "[''adb-AB'', ''_adb-tls-connect'', ''_tcp''] \<noteq> []"
    by simp
  have c: "\<forall>p\<in>set [''adb-AB'', ''_adb-tls-connect'', ''_tcp'']. CHR ''.'' \<notin> set p"
    by simp
  have j: "join_sep (CHR ''.'') [''adb-AB'', ''_adb-tls-connect'', ''_tcp'']
     = id_dev \<lparr>id_dev = ''adb-AB._adb-tls-connect._tcp'', status_dev = ''offline''\<rparr>"
    by simp
  show ?thesis
    using a c j analyze_device_mdns_fields [OF a b c j] by simp
qed

section \<open>The partition into online and offline devices\<close>

lemma split_online_filter:
  "split_online ds (on, off) =
     (on @ filter (\<lambda>d. status_dev d = ''device'') ds,
      off @ filter (\<lambda>d. status_dev d \<noteq> ''device'') ds)"
  by (induction ds arbitrary: on off) auto

lemma fst_display_devices:
  "fst (display_devices devices w) =
     (filter (\<lambda>d. status_dev d = ''device'') devices,
      filter (\<lambda>d. status_dev d \<noteq> ''device'') devices)"
  by (simp add: display_devices_def split_online_filter Let_def)

text \<open>
  Claim C3. The two lists that \<open>display_devices\<close> returns are a partition of its
  input: the first holds exactly the records whose status is \<open>device\<close>, the second all
  the others; no record is in both and every record is in one; each list keeps the
  order of the input; together they have the records of the input, with multiplicity.
\<close>

theorem display_devices_partition:
  "fst (fst (display_devices devices w)) = filter (\<lambda>d. status_dev d = ''device'') devices \<and>
   snd (fst (display_devices devices w)) = filter (\<lambda>d. status_dev d \<noteq> ''device'') devices \<and>
   set (fst (fst (display_devices devices w))) \<inter> set (snd (fst (display_devices devices w))) = {} \<and>
   set (fst (fst (display_devices devices w))) \<union> set (snd (fst (display_devices devices w)))
     = set devices \<and>
   subseq (fst (fst (display_devices devices w))) devices \<and>
   subseq (snd (fst (display_devices devices w))) devices \<and>
   mset (fst (fst (display_devices devices w))) + mset (snd (fst (display_devices devices w)))
     = mset devices"
proof -
  have m: "mset (filter (\<lambda>d. status_dev d = ''device'') devices)
             + mset (filter (\<lambda>d. status_dev d \<noteq> ''device'') devices) = mset devices"
    by (induction devices) auto
  show ?thesis
    unfolding fst_display_devices using m by auto
qed

section \<open>Failures of the listing command\<close>

text \<open>
  Claim C7. \<open>get_adb_devices_with_status\<close> returns a list in every case. When running
  the listing command raises (a timeout or any other failure to execute), and when it
  exits with a code other than zero, the function writes one line reporting the error
  and returns the empty list.
\<close>

theorem get_adb_devices_with_status_failure:
  "(adb (calls w) devices_cmd = Inl e \<longrightarrow>
      get_adb_devices_with_status adb w =
        ([], w\<lparr>calls := calls w @ [(devices_cmd, Inl e)],
               console := console w @ [List_failed e]\<rparr>)) \<and>
   (adb (calls w) devices_cmd = Inr r \<and> returncode r \<noteq> 0 \<longrightarrow>
      get_adb_devices_with_status adb w =
        ([], w\<lparr>calls := calls w @ [(devices_cmd, Inr r)],
               console := console w @ [Adb_command_failed (stderr r)]\<rparr>))"
  by (simp add: get_adb_devices_with_status_def get_adb_devices_body_def run_def print_def
      Let_def)

theorem get_adb_devices_with_status_failure_witness:
  "adb_timeout (calls empty_world) devices_cmd = Inl TimeoutExpired \<and>
   get_adb_devices_with_status adb_timeout empty_world =
     ([], \<lparr>stdin = [], console = [List_failed TimeoutExpired],
           calls = [(devices_cmd, Inl TimeoutExpired)]\<rparr>) \<and>
   adb_exit_1 (calls empty_world) devices_cmd
     = Inr \<lparr>returncode = 1, stdout = [], stderr = ''error: no adb''\<rparr> \<and>
   returncode \<lparr>returncode = 1, stdout = [], stderr = ''error: no adb''\<rparr> \<noteq> 0 \<and>
   get_adb_devices_with_status adb_exit_1 empty_world =
     ([], \<lparr>stdin = [], console = [Adb_command_failed ''error: no adb''],
           calls = [(devices_cmd,
                     Inr \<lparr>returncode = 1, stdout = [], stderr = ''error: no adb''\<rparr>)]\<rparr>)"
  using get_adb_devices_with_status_failure [of adb_timeout empty_world TimeoutExpired]
    get_adb_devices_with_status_failure [of adb_exit_1 empty_world _
      "\<lparr>returncode = 1, stdout = [], stderr = ''error: no adb''\<rparr>"]
  by (simp add: adb_timeout_def adb_exit_1_def empty_world_def)

section \<open>Reconnecting\<close>

lemma reconnect_cases:
  "reconnect_offline_device adb d w =
     (let i = id_dev d;
          w0 = print (Try_reconnect i) w;
          r1 = adb (calls w) (disconnect_cmd i);
          w1 = w0\<lparr>calls := calls w @ [(disconnect_cmd i, r1)]\<rparr>
      in case r1 of
           Inl e \<Rightarrow> (False, print (Reconnect_error e) w1)
         | Inr c \<Rightarrow>
             if CHR '':'' \<in> set i \<or> startswith i ''adb-'' then
               (let r2 = adb (calls w1) (connect_cmd i);
                    w2 = w1\<lparr>calls := calls w1 @ [(connect_cmd i, r2)]\<rparr>
                in case r2 of
                     Inl e \<Rightarrow> (False, print (Reconnect_error e) w2)
                   | Inr res \<Rightarrow>
                       if py_in ''connected'' (stdout res)
                       then (True, print (Reconnect_ok i) w2)
                       else (False, print (Reconnect_failed (stderr res)) w2))
             else (False, print Check_usb w1))"
  by (simp add: reconnect_offline_device_def reconnect_body_def run_def print_def Let_def
      split: sum.splits)


text \<open>
  Claim C10. \<open>reconnect_offline_device\<close> runs the disconnect command first, for every
  record and before looking at the form of the id, and runs it once. For an id with
  neither a colon nor the prefix \<open>adb-\<close> it is the only command run, and the result is
  failure.
\<close>

theorem reconnect_offline_device_disconnects_first:
  "\<exists>rest.
     calls (snd (reconnect_offline_device adb d w)) =
       calls w @ (disconnect_cmd (id_dev d), adb (calls w) (disconnect_cmd (id_dev d))) # rest \<and>
     (\<forall>c\<in>set rest. fst c \<noteq> disconnect_cmd (id_dev d)) \<and>
     (CHR '':'' \<notin> set (id_dev d) \<and> \<not> (\<exists>r. id_dev d = ''adb-'' @ r) \<longrightarrow>
        rest = [] \<and> \<not> fst (reconnect_offline_device adb d w))"
  unfolding startswith_iff [symmetric]
  by (simp add: reconnect_cases Let_def print_def disconnect_cmd_def connect_cmd_def
      split: sum.splits)

theorem reconnect_offline_device_disconnects_first_witness:
  "CHR '':'' \<notin> set (id_dev usb_device) \<and> \<not> (\<exists>r. id_dev usb_device = ''adb-'' @ r) \<and>
   calls (snd (reconnect_offline_device adb_quiet usb_device empty_world)) =
     [(disconnect_cmd ''R58M'', Inr \<lparr>returncode = 0, stdout = [], stderr = []\<rparr>)] \<and>
   \<not> fst (reconnect_offline_device adb_quiet usb_device empty_world)"
  using reconnect_offline_device_disconnects_first [of adb_quiet usb_device empty_world]
  by (auto simp add: usb_device_def adb_quiet_def empty_world_def)

text \<open>
  Claim C5, as amended. \<open>reconnect_offline_device\<close> returns success exactly when the id
  contains a colon or starts with \<open>adb-\<close>, the disconnect command completes, and the
  connect command, which is then run, completes with \<open>connected\<close> in its captured
  standard output. In full, by the answers of the tool: for an id of that form, after a
  disconnect command that completes, the connect command is run, and the result is
  success or failure as its standard output contains \<open>connected\<close> or not, or failure
  with the error written when it raises; for an id of neither form the result is
  failure, no connect command is run, and the guidance is written when the disconnect
  command completes; when running the disconnect command raises, for any id, the error
  is written, no connect command is run and the result is failure.
\<close>

theorem reconnect_offline_device_result:
  "(fst (reconnect_offline_device adb d w) \<longleftrightarrow>
      (CHR '':'' \<in> set (id_dev d) \<or> (\<exists>r. id_dev d = ''adb-'' @ r)) \<and>
      (\<exists>c res.
          adb (calls w) (disconnect_cmd (id_dev d)) = Inr c \<and>
          adb (calls w @ [(disconnect_cmd (id_dev d), Inr c)]) (connect_cmd (id_dev d))
            = Inr res \<and>
          py_in ''connected'' (stdout res))) \<and>
   (\<forall>c res.
      (CHR '':'' \<in> set (id_dev d) \<or> (\<exists>r. id_dev d = ''adb-'' @ r)) \<and>
      adb (calls w) (disconnect_cmd (id_dev d)) = Inr c \<and>
      adb (calls w @ [(disconnect_cmd (id_dev d), Inr c)]) (connect_cmd (id_dev d)) = Inr res
      \<longrightarrow>
      reconnect_offline_device adb d w =
        (py_in ''connected'' (stdout res),
         w\<lparr>console := console w @
                [Try_reconnect (id_dev d),
                 if py_in ''connected'' (stdout res) then Reconnect_ok (id_dev d)
                 else Reconnect_failed (stderr res)],
            calls := calls w @
                [(disconnect_cmd (id_dev d), Inr c), (connect_cmd (id_dev d), Inr res)]\<rparr>)) \<and>
   (\<forall>c e.
      (CHR '':'' \<in> set (id_dev d) \<or> (\<exists>r. id_dev d = ''adb-'' @ r)) \<and>
      adb (calls w) (disconnect_cmd (id_dev d)) = Inr c \<and>
      adb (calls w @ [(disconnect_cmd (id_dev d), Inr c)]) (connect_cmd (id_dev d)) = Inl e
      \<longrightarrow>
      reconnect_offline_device adb d w =
        (False,
         w\<lparr>console := console w @ [Try_reconnect (id_dev d), Reconnect_error e],
            calls := calls w @
                [(disconnect_cmd (id_dev d), Inr c), (connect_cmd (id_dev d), Inl e)]\<rparr>)) \<and>
   (\<forall>c.
      CHR '':'' \<notin> set (id_dev d) \<and> \<not> (\<exists>r. id_dev d = ''adb-'' @ r) \<and>
      adb (calls w) (disconnect_cmd (id_dev d)) = Inr c
      \<longrightarrow>
      reconnect_offline_device adb d w =
        (False,
         w\<lparr>console := console w @ [Try_reconnect (id_dev d), Check_usb],
            calls := calls w @ [(disconnect_cmd (id_dev d), Inr c)]\<rparr>)) \<and>
   (\<forall>e.
      adb (calls w) (disconnect_cmd (id_dev d)) = Inl e
      \<longrightarrow>
      reconnect_offline_device adb d w =
        (False,
         w\<lparr>console := console w @ [Try_reconnect (id_dev d), Reconnect_error e],
            calls := calls w @ [(disconnect_cmd (id_dev d), Inl e)]\<rparr>)) \<and>
   (CHR '':'' \<notin> set (id_dev d) \<and> \<not> (\<exists>r. id_dev d = ''adb-'' @ r) \<longrightarrow>
      \<not> fst (reconnect_offline_device adb d w) \<and>
      (\<forall>c\<in>set (drop (length (calls w)) (calls (snd (reconnect_offline_device adb d w)))).
          \<forall>i. fst c \<noteq> connect_cmd i))"
  unfolding startswith_iff [symmetric]
  by (auto simp add: reconnect_cases Let_def print_def disconnect_cmd_def connect_cmd_def
      split: sum.splits)

theorem reconnect_offline_device_result_witness:
  "CHR '':'' \<in> set (id_dev wifi_device) \<and>
   adb_connects (calls empty_world) (disconnect_cmd (id_dev wifi_device))
     = Inr \<lparr>returncode = 0, stdout = ''connected to 10.0.0.2:5555'', stderr = []\<rparr> \<and>
   py_in ''connected'' ''connected to 10.0.0.2:5555'' \<and>
   reconnect_offline_device adb_connects wifi_device empty_world =
     (True,
      \<lparr>stdin = [],
       console = [Try_reconnect ''10.0.0.2:5555'', Reconnect_ok ''10.0.0.2:5555''],
       calls =
         [(disconnect_cmd ''10.0.0.2:5555'',
           Inr \<lparr>returncode = 0, stdout = ''connected to 10.0.0.2:5555'', stderr = []\<rparr>),
          (connect_cmd ''10.0.0.2:5555'',
           Inr \<lparr>returncode = 0, stdout = ''connected to 10.0.0.2:5555'', stderr = []\<rparr>)]\<rparr>) \<and>
   adb_connect_timeout (calls empty_world) (disconnect_cmd (id_dev wifi_device))
     = Inr \<lparr>returncode = 0, stdout = [], stderr = []\<rparr> \<and>
   reconnect_offline_device adb_connect_timeout wifi_device empty_world =
     (False,
      \<lparr>stdin = [],
       console = [Try_reconnect ''10.0.0.2:5555'', Reconnect_error TimeoutExpired],
       calls =
         [(disconnect_cmd ''10.0.0.2:5555'', Inr \<lparr>returncode = 0, stdout = [], stderr = []\<rparr>),
          (connect_cmd ''10.0.0.2:5555'', Inl TimeoutExpired)]\<rparr>) \<and>
   CHR '':'' \<notin> set (id_dev usb_device) \<and> \<not> (\<exists>r. id_dev usb_device = ''adb-'' @ r) \<and>
   adb_quiet (calls empty_world) (disconnect_cmd (id_dev usb_device))
     = Inr \<lparr>returncode = 0, stdout = [], stderr = []\<rparr> \<and>
   reconnect_offline_device adb_quiet usb_device empty_world =
     (False,
      \<lparr>stdin = [], console = [Try_reconnect ''R58M'', Check_usb],
       calls =
         [(disconnect_cmd ''R58M'', Inr \<lparr>returncode = 0, stdout = [], stderr = []\<rparr>)]\<rparr>) \<and>
   adb_timeout (calls empty_world) (disconnect_cmd (id_dev wifi_device)) = Inl TimeoutExpired \<and>
   reconnect_offline_device adb_timeout wifi_device empty_world =
     (False,
      \<lparr>stdin = [],
       console = [Try_reconnect ''10.0.0.2:5555'', Reconnect_error TimeoutExpired],
       calls = [(disconnect_cmd ''10.0.0.2:5555'', Inl TimeoutExpired)]\<rparr>)"
  using reconnect_offline_device_result [of adb_connects wifi_device empty_world]
    reconnect_offline_device_result [of adb_connect_timeout wifi_device empty_world]
    reconnect_offline_device_result [of adb_quiet usb_device empty_world]
    reconnect_offline_device_result [of adb_timeout wifi_device empty_world]
  by (simp add: adb_connects_def adb_connect_timeout_def adb_quiet_def adb_timeout_def
      wifi_device_def usb_device_def empty_world_def is_disconnect_def disconnect_cmd_def
      connect_cmd_def)

text \<open>
  Claim C5 as stated has the guidance written for every id of neither form, and
  success decided by the form of the id and the output of the connect command alone.
  The disconnect command runs first, inside the same \<open>try\<close>: when it raises, the handler
  writes the error, the guidance is not written, and a wireless device is not
  reconnected although the tool would have answered \<open>connected\<close>.
\<close>

theorem reconnect_usb_guidance_counterexample:
  "CHR '':'' \<notin> set (id_dev usb_device) \<and> \<not> startswith (id_dev usb_device) ''adb-'' \<and>
   reconnect_offline_device adb_timeout usb_device empty_world =
     (False, \<lparr>stdin = [],
              console = [Try_reconnect ''R58M'', Reconnect_error TimeoutExpired],
              calls = [(disconnect_cmd ''R58M'', Inl TimeoutExpired)]\<rparr>) \<and>
   Check_usb \<notin> set (console (snd (reconnect_offline_device adb_timeout usb_device empty_world))) \<and>
   CHR '':'' \<in> set (id_dev wifi_device) \<and>
   adb_disconnect_timeout [] (connect_cmd (id_dev wifi_device))
     = Inr \<lparr>returncode = 0, stdout = ''connected to 10.0.0.2:5555'', stderr = []\<rparr> \<and>
   py_in ''connected'' ''connected to 10.0.0.2:5555'' \<and>
   reconnect_offline_device adb_disconnect_timeout wifi_device empty_world =
     (False, \<lparr>stdin = [],
              console = [Try_reconnect ''10.0.0.2:5555'', Reconnect_error TimeoutExpired],
              calls = [(disconnect_cmd ''10.0.0.2:5555'', Inl TimeoutExpired)]\<rparr>)"
  by (simp add: reconnect_cases Let_def print_def usb_device_def wifi_device_def
      adb_timeout_def adb_disconnect_timeout_def is_disconnect_def disconnect_cmd_def
      connect_cmd_def empty_world_def)

section \<open>Selection\<close>

lemmas py_int_eval = py_int_def int_strip_def int_isspace_def py_digits_def is_digit_def
  digit_val_def max_str_digits_def

lemma py_int_examples:
  "py_int ''1'' = Some 1"
  "py_int '' +1_0 '' = Some 10"
  "py_int ''-7'' = Some (- 7)"
  "py_int ''1__0'' = None"
  "py_int ''abc'' = None"
  "py_int [] = None"
  "py_int [CHR 0x1C, CHR ''3'', CHR 0x1F] = None"
  "py_int [CHR 0x1F, CHR ''2''] = None"
  "py_int [CHR 0xA0, CHR ''3'', CHR 0x85] = Some 3"
  "py_int [CHR 0x09, CHR ''3'', CHR 0x0A] = Some 3"
  by (simp_all add: py_int_eval)

text \<open>More digit characters than the limit allows are refused, whatever they are.\<close>

lemma py_digits_limit:
  "max_str_digits < length (filter is_digit s) \<Longrightarrow> py_digits s = None"
  by (cases s) (auto simp add: py_digits_def)

lemma py_int_limit:
  "max_str_digits < n \<Longrightarrow> py_int (replicate n (CHR ''0'') @ ''1'') = None"
proof -
  assume n: "max_str_digits < n"
  have d: "filter is_digit (replicate n (CHR ''0'') @ ''1'') = replicate n (CHR ''0'') @ ''1''"
    by (simp add: is_digit_def)
  have ns: "\<not> int_isspace (CHR ''0'')" "\<not> int_isspace (CHR ''1'')"
    by (simp_all add: int_isspace_def)
  have "dropWhile int_isspace (replicate n (CHR ''0'') @ ''1'') = replicate n (CHR ''0'') @ ''1''"
    using ns n by (cases n) simp_all
  then have st: "int_strip (replicate n (CHR ''0'') @ ''1'') = replicate n (CHR ''0'') @ ''1''"
    using ns by (simp add: int_strip_def)
  obtain m where m: "n = Suc m"
    using n by (cases n) simp_all
  have "py_digits (replicate n (CHR ''0'') @ ''1'') = None"
    using n d by (intro py_digits_limit) simp
  then show ?thesis
    using st m by (simp add: py_int_def)
qed

text \<open>
  Claim C4. \<open>select_online_device\<close> on the empty list yields no selection; on a list of
  one element it yields that element, reading nothing from standard input and writing
  no prompt. On a list of two or more elements, with a line waiting on standard input,
  it prompts once and reads that one line: when the line parses as an integer between
  1 and the length of the list it yields the element at that (1-based) index; when it
  parses as an integer out of that range, or does not parse, it yields no selection,
  without asking again. With two devices \<open>x\<close> and \<open>y\<close>, the line \<open>1\<close> yields \<open>x\<close>
  and the line \<open>3\<close> yields no selection.
\<close>

theorem select_online_device_cases:
  "select_online_device [] w = (Inr None, print No_online_device w) \<and>
   select_online_device [x] w = (Inr (Some x), print (Auto_select (id_dev x)) w) \<and>
   stdin (snd (select_online_device [x] w)) = stdin w \<and>
   (2 \<le> length ds \<and> stdin w = s # rest \<longrightarrow>
      stdin (snd (select_online_device ds w)) = rest \<and>
      length (filter (\<lambda>l. l = Prompt_select)
                (drop (length (console w)) (console (snd (select_online_device ds w))))) = 1 \<and>
      (\<forall>n. py_int s = Some n \<and> 1 \<le> n \<and> n \<le> int (length ds) \<longrightarrow>
           select_online_device ds w =
             (Inr (Some (ds ! nat (n - 1))),
              w\<lparr>stdin := rest, console := console w @ [Prompt_select]\<rparr>)) \<and>
      (\<forall>n. py_int s = Some n \<and> \<not> (1 \<le> n \<and> n \<le> int (length ds)) \<longrightarrow>
           select_online_device ds w =
             (Inr None,
              w\<lparr>stdin := rest, console := console w @ [Prompt_select, Invalid_choice]\<rparr>)) \<and>
      (py_int s = None \<longrightarrow>
           select_online_device ds w =
             (Inr None,
              w\<lparr>stdin := rest, console := console w @ [Prompt_select, Enter_a_number]\<rparr>))) \<and>
   fst (select_online_device [x, y] (w\<lparr>stdin := ''1'' # rest\<rparr>)) = Inr (Some x) \<and>
   fst (select_online_device [x, y] (w\<lparr>stdin := ''3'' # rest\<rparr>)) = Inr None"
proof -
  have a: "select_online_device [] w = (Inr None, print No_online_device w)"
    by (simp add: select_online_device_def)
  have b: "select_online_device [x] w = (Inr (Some x), print (Auto_select (id_dev x)) w)"
    by (simp add: select_online_device_def)
  have c: "stdin (snd (select_online_device [x] w)) = stdin w"
    by (simp add: b print_def)
  have d: "fst (select_online_device [x, y] (w\<lparr>stdin := ''1'' # rest\<rparr>)) = Inr (Some x)"
    by (simp add: select_online_device_def input_def print_def py_int_eval)
  have e: "fst (select_online_device [x, y] (w\<lparr>stdin := ''3'' # rest\<rparr>)) = Inr None"
    by (simp add: select_online_device_def input_def print_def py_int_eval)
  have f: "2 \<le> length ds \<and> stdin w = s # rest \<longrightarrow>
      stdin (snd (select_online_device ds w)) = rest \<and>
      length (filter (\<lambda>l. l = Prompt_select)
                (drop (length (console w)) (console (snd (select_online_device ds w))))) = 1 \<and>
      (\<forall>n. py_int s = Some n \<and> 1 \<le> n \<and> n \<le> int (length ds) \<longrightarrow>
           select_online_device ds w =
             (Inr (Some (ds ! nat (n - 1))),
              w\<lparr>stdin := rest, console := console w @ [Prompt_select]\<rparr>)) \<and>
      (\<forall>n. py_int s = Some n \<and> \<not> (1 \<le> n \<and> n \<le> int (length ds)) \<longrightarrow>
           select_online_device ds w =
             (Inr None,
              w\<lparr>stdin := rest, console := console w @ [Prompt_select, Invalid_choice]\<rparr>)) \<and>
      (py_int s = None \<longrightarrow>
           select_online_device ds w =
             (Inr None,
              w\<lparr>stdin := rest, console := console w @ [Prompt_select, Enter_a_number]\<rparr>))"
  proof
    assume h: "2 \<le> length ds \<and> stdin w = s # rest"
    then have n: "ds \<noteq> []" "length ds \<noteq> 1"
      by auto
    show "stdin (snd (select_online_device ds w)) = rest \<and>
      length (filter (\<lambda>l. l = Prompt_select)
                (drop (length (console w)) (console (snd (select_online_device ds w))))) = 1 \<and>
      (\<forall>n. py_int s = Some n \<and> 1 \<le> n \<and> n \<le> int (length ds) \<longrightarrow>
           select_online_device ds w =
             (Inr (Some (ds ! nat (n - 1))),
              w\<lparr>stdin := rest, console := console w @ [Prompt_select]\<rparr>)) \<and>
      (\<forall>n. py_int s = Some n \<and> \<not> (1 \<le> n \<and> n \<le> int (length ds)) \<longrightarrow>
           select_online_device ds w =
             (Inr None,
              w\<lparr>stdin := rest, console := console w @ [Prompt_select, Invalid_choice]\<rparr>)) \<and>
      (py_int s = None \<longrightarrow>
           select_online_device ds w =
             (Inr None,
              w\<lparr>stdin := rest, console := console w @ [Prompt_select, Enter_a_number]\<rparr>))"
      using h n
      by (cases "py_int s") (auto simp add: select_online_device_def input_def print_def)
  qed
  show ?thesis
    using a b c d e f by blast
qed

theorem select_online_device_cases_witness:
  "2 \<le> length [usb_device, wifi_device] \<and>
   stdin (empty_world\<lparr>stdin := [''2'']\<rparr>) = [''2''] \<and>
   py_int ''2'' = Some 2 \<and>
   select_online_device [usb_device, wifi_device] (empty_world\<lparr>stdin := [''2'']\<rparr>) =
     (Inr (Some wifi_device), \<lparr>stdin = [], console = [Prompt_select], calls = []\<rparr>) \<and>
   stdin (empty_world\<lparr>stdin := [''0'']\<rparr>) = [''0''] \<and>
   py_int ''0'' = Some 0 \<and>
   select_online_device [usb_device, wifi_device] (empty_world\<lparr>stdin := [''0'']\<rparr>) =
     (Inr None, \<lparr>stdin = [], console = [Prompt_select, Invalid_choice], calls = []\<rparr>) \<and>
   stdin (empty_world\<lparr>stdin := [''two'']\<rparr>) = [''two''] \<and>
   py_int ''two'' = None \<and>
   select_online_device [usb_device, wifi_device] (empty_world\<lparr>stdin := [''two'']\<rparr>) =
     (Inr None, \<lparr>stdin = [], console = [Prompt_select, Enter_a_number], calls = []\<rparr>)"
  using
    select_online_device_cases [where ds = "[usb_device, wifi_device]"
      and w = "empty_world\<lparr>stdin := [''2'']\<rparr>" and s = "''2''" and rest = "[]"]
    select_online_device_cases [where ds = "[usb_device, wifi_device]"
      and w = "empty_world\<lparr>stdin := [''0'']\<rparr>" and s = "''0''" and rest = "[]"]
    select_online_device_cases [where ds = "[usb_device, wifi_device]"
      and w = "empty_world\<lparr>stdin := [''two'']\<rparr>" and s = "''two''" and rest = "[]"]
  by (simp add: py_int_eval empty_world_def)

section \<open>The listing of the example\<close>

lemma parse_example:
  "parse_devices example_listing =
     [\<lparr>id_dev = ''192.168.1.5:5555'', status_dev = ''device''\<rparr>,
      \<lparr>id_dev = ''adb-ABC123._adb-tls-connect._tcp.'', status_dev = ''offline''\<rparr>]"
  by (simp add: parse_devices_def example_listing_def py_strip_def py_isspace_def
      split_ws.simps)

text \<open>
  Claim C2. The listing of the example yields exactly two records; the first is of
  type \<open>wireless\<close> and online; the second is of type \<open>mdns_wireless\<close> and offline. The
  claim has the second record encrypted: its service segment is \<open>_adb-tls-connect\<close>.
  The code at this listing gives \<open>is_encrypted\<close> false: the marker of line 55 is
  \<open>_tls-connect\<close>, with an underscore before \<open>tls\<close>, where the id has a hyphen, so the
  marker does not occur in it.
\<close>

theorem example_listing_classified:
  "get_adb_devices_with_status adb_example empty_world =
     ([\<lparr>id_dev = ''192.168.1.5:5555'', status_dev = ''device''\<rparr>,
       \<lparr>id_dev = ''adb-ABC123._adb-tls-connect._tcp.'', status_dev = ''offline''\<rparr>],
      empty_world\<lparr>calls :=
        [(devices_cmd, Inr \<lparr>returncode = 0, stdout = example_listing, stderr = []\<rparr>)]\<rparr>) \<and>
   length (parse_devices example_listing) = 2 \<and>
   analyze_device (parse_devices example_listing ! 0) ''type'' = Some (Str ''wireless'') \<and>
   status_dev (parse_devices example_listing ! 0) = ''device'' \<and>
   analyze_device (parse_devices example_listing ! 1) ''type'' = Some (Str ''mdns_wireless'') \<and>
   analyze_device (parse_devices example_listing ! 1) ''is_encrypted'' = Some (Bool False) \<and>
   status_dev (parse_devices example_listing ! 1) \<noteq> ''device''"
  by (simp add: parse_example analyze_device_def get_adb_devices_with_status_def
      get_adb_devices_body_def run_def adb_example_def empty_world_def Let_def)

section \<open>The parser\<close>

lemma dropWhile_all_iff:
  "(\<forall>c\<in>set (dropWhile P l). P c) \<longleftrightarrow> (\<forall>c\<in>set l. P c)"
proof
  assume h: "\<forall>c\<in>set (dropWhile P l). P c"
  have "dropWhile P l = []"
  proof (cases "dropWhile P l")
    case Nil
    then show ?thesis .
  next
    case (Cons c cs)
    then have "\<not> P c"
      by (metis hd_dropWhile list.distinct(1) list.sel(1))
    moreover have "P c"
      using h Cons by simp
    ultimately show ?thesis by simp
  qed
  then show "\<forall>c\<in>set l. P c"
    by (simp add: dropWhile_eq_Nil_conv)
next
  assume "\<forall>c\<in>set l. P c"
  then show "\<forall>c\<in>set (dropWhile P l). P c"
    by (auto dest: set_dropWhileD)
qed

lemma py_strip_Nil_iff: "py_strip l = [] \<longleftrightarrow> (\<forall>c\<in>set l. py_isspace c)"
proof -
  have "py_strip l = [] \<longleftrightarrow> dropWhile py_isspace (rev (dropWhile py_isspace l)) = []"
    by (simp add: py_strip_def)
  also have "\<dots> \<longleftrightarrow> (\<forall>c\<in>set (dropWhile py_isspace l). py_isspace c)"
    by (simp only: dropWhile_eq_Nil_conv set_rev)
  also have "\<dots> \<longleftrightarrow> (\<forall>c\<in>set l. py_isspace c)"
    by (rule dropWhile_all_iff)
  finally show ?thesis .
qed

lemma split_ws_all_space: "\<forall>c\<in>set t. py_isspace c \<Longrightarrow> split_ws t = []"
proof -
  assume "\<forall>c\<in>set t. py_isspace c"
  then have "dropWhile py_isspace t = []"
    by (simp add: dropWhile_eq_Nil_conv)
  then show ?thesis
    by (subst split_ws.simps) (simp only: list.case)
qed

lemma split_ws_dropWhile: "split_ws (dropWhile py_isspace s) = split_ws s"
proof -
  have "split_ws (dropWhile py_isspace s) =
     (case dropWhile py_isspace (dropWhile py_isspace s) of
        [] \<Rightarrow> []
      | c # cs \<Rightarrow>
          takeWhile (\<lambda>x. \<not> py_isspace x) (c # cs)
            # split_ws (dropWhile (\<lambda>x. \<not> py_isspace x) (c # cs)))"
    by (rule split_ws.simps)
  also have "\<dots> = split_ws s"
    by (simp add: dropWhile_idem split_ws.simps [of s])
  finally show ?thesis .
qed

lemma split_ws_append_space:
  "\<forall>c\<in>set t. py_isspace c \<Longrightarrow> split_ws (s @ t) = split_ws s"
proof (induction s rule: split_ws.induct)
  case (1 s)
  note sp = "1.prems"
  have tw: "takeWhile (\<lambda>x. \<not> py_isspace x) t = []"
    using sp by (cases t) auto
  have dw: "dropWhile (\<lambda>x. \<not> py_isspace x) t = t"
    using sp by (cases t) auto
  show ?case
  proof (cases "dropWhile py_isspace s")
    case Nil
    then have "\<forall>c\<in>set (s @ t). py_isspace c"
      using sp by (auto simp: dropWhile_eq_Nil_conv)
    then have "split_ws (s @ t) = []"
      by (rule split_ws_all_space)
    moreover have "split_ws s = []"
      using Nil by (subst split_ws.simps) (simp only: list.case)
    ultimately show ?thesis by simp
  next
    case (Cons c cs)
    have c_in: "c \<in> set s"
      using Cons by (metis list.set_intros(1) set_dropWhileD)
    have c_ns: "\<not> py_isspace c"
      using Cons by (metis hd_dropWhile list.distinct(1) list.sel(1))
    have d: "dropWhile py_isspace (s @ t) = (c # cs) @ t"
      using dropWhile_append1 [OF c_in, of py_isspace t] c_ns Cons by simp
    show ?thesis
    proof (cases "\<exists>x\<in>set (c # cs). py_isspace x")
      case True
      then obtain x where x: "x \<in> set (c # cs)" "py_isspace x"
        by blast
      have t1: "takeWhile (\<lambda>x. \<not> py_isspace x) ((c # cs) @ t)
                  = takeWhile (\<lambda>x. \<not> py_isspace x) (c # cs)"
        using takeWhile_append1 [OF x(1), of "\<lambda>x. \<not> py_isspace x" t] x(2) by simp
      have d1: "dropWhile (\<lambda>x. \<not> py_isspace x) ((c # cs) @ t)
                  = dropWhile (\<lambda>x. \<not> py_isspace x) (c # cs) @ t"
        using dropWhile_append1 [OF x(1), of "\<lambda>x. \<not> py_isspace x" t] x(2) by simp
      have ih: "split_ws (dropWhile (\<lambda>x. \<not> py_isspace x) (c # cs) @ t)
                  = split_ws (dropWhile (\<lambda>x. \<not> py_isspace x) (c # cs))"
        using "1.IH" [OF Cons sp] .
      have "split_ws (s @ t) =
              takeWhile (\<lambda>x. \<not> py_isspace x) (c # cs)
                # split_ws (dropWhile (\<lambda>x. \<not> py_isspace x) (c # cs) @ t)"
        using d t1 d1 by (simp add: split_ws.simps [of "s @ t"] del: takeWhile.simps dropWhile.simps)
      also have "\<dots> = split_ws s"
        using Cons ih by (simp add: split_ws.simps [of s] del: takeWhile.simps dropWhile.simps)
      finally show ?thesis .
    next
      case False
      then have all: "\<forall>x\<in>set (c # cs). \<not> py_isspace x"
        by blast
      have "takeWhile (\<lambda>x. \<not> py_isspace x) ((c # cs) @ t)
              = (c # cs) @ takeWhile (\<lambda>x. \<not> py_isspace x) t"
        by (rule takeWhile_append2) (use all in blast)
      then have t1: "takeWhile (\<lambda>x. \<not> py_isspace x) ((c # cs) @ t) = c # cs"
        using tw by (simp del: takeWhile.simps)
      have "dropWhile (\<lambda>x. \<not> py_isspace x) ((c # cs) @ t)
              = dropWhile (\<lambda>x. \<not> py_isspace x) t"
        by (rule dropWhile_append2) (use all in blast)
      then have d1: "dropWhile (\<lambda>x. \<not> py_isspace x) ((c # cs) @ t) = t"
        using dw by (simp del: dropWhile.simps)
      have t2: "takeWhile (\<lambda>x. \<not> py_isspace x) (c # cs) = c # cs"
        using all by (simp add: takeWhile_eq_all_conv del: takeWhile.simps)
      have d2: "dropWhile (\<lambda>x. \<not> py_isspace x) (c # cs) = []"
        using all by (simp add: dropWhile_eq_Nil_conv del: dropWhile.simps)
      have "split_ws (s @ t) = [c # cs]"
        using d t1 d1 split_ws_all_space [OF sp]
        by (simp add: split_ws.simps [of "s @ t"] del: takeWhile.simps dropWhile.simps)
      moreover have "split_ws s = [c # cs]"
      proof -
        have e: "split_ws [] = []"
          using split_ws_all_space [of "[]"] by simp
        have "split_ws s =
                takeWhile (\<lambda>x. \<not> py_isspace x) (c # cs)
                  # split_ws (dropWhile (\<lambda>x. \<not> py_isspace x) (c # cs))"
          using Cons by (subst split_ws.simps) (simp only: list.case)
        also have "\<dots> = [c # cs]"
          by (simp only: t2 d2 e)
        finally show ?thesis .
      qed
      ultimately show ?thesis by simp
    qed
  qed
qed

lemma split_ws_strip: "split_ws (py_strip l) = split_ws l"
proof -
  let ?s = "dropWhile py_isspace l"
  have id: "rev (dropWhile py_isspace (rev ?s)) @ rev (takeWhile py_isspace (rev ?s)) = ?s"
    by (metis rev_append rev_rev_ident takeWhile_dropWhile_id)
  have sp: "\<forall>c\<in>set (rev (takeWhile py_isspace (rev ?s))). py_isspace c"
    by (auto dest: set_takeWhileD)
  have "split_ws (py_strip l) = split_ws (py_strip l @ rev (takeWhile py_isspace (rev ?s)))"
    using split_ws_append_space [OF sp] by simp
  also have "\<dots> = split_ws ?s"
    using id by (simp add: py_strip_def)
  also have "\<dots> = split_ws l"
    by (rule split_ws_dropWhile)
  finally show ?thesis .
qed

lemma parse_lines_spec: "parse_lines ls acc = acc @ spec_parse_lines ls"
proof (induction ls arbitrary: acc)
  case Nil
  show ?case by (simp add: spec_parse_lines_def)
next
  case (Cons l ls)
  have blank: "\<not> spec_nonblank l \<Longrightarrow> py_strip l = []"
    by (simp add: py_strip_Nil_iff spec_nonblank_def)
  have nonblank: "spec_nonblank l \<Longrightarrow> py_strip l \<noteq> []"
    by (simp add: py_strip_Nil_iff spec_nonblank_def)
  show ?case
    using blank nonblank
    by (cases "spec_nonblank l")
      (simp_all add: Cons.IH split_ws_strip Let_def spec_parse_lines_def spec_record_def)
qed

lemma parse_devices_spec: "parse_devices out = spec_parse (py_strip out)"
  by (simp add: parse_devices_def spec_parse_def parse_lines_spec drop_Suc)


text \<open>
  Claim C8, as amended. For every captured output of a listing command that exits
  with code zero, \<open>get_adb_devices_with_status\<close> returns what the parser of the
  specification returns on that output with the white space at its two ends removed:
  the first line of the stripped output is skipped, every remaining non-blank line
  with at least two tokens gives a record of its first two tokens, and the other lines
  give none. Nothing is written for a dropped line.
\<close>

theorem get_adb_devices_with_status_parse:
  assumes "adb (calls w) devices_cmd = Inr r" and "returncode r = 0"
  shows "get_adb_devices_with_status adb w =
           (spec_parse (py_strip (stdout r)),
            w\<lparr>calls := calls w @ [(devices_cmd, Inr r)]\<rparr>)"
  using assms
  by (simp add: get_adb_devices_with_status_def get_adb_devices_body_def run_def Let_def
      parse_devices_spec)

theorem get_adb_devices_with_status_parse_witness:
  "adb_example (calls empty_world) devices_cmd
     = Inr \<lparr>returncode = 0, stdout = example_listing, stderr = []\<rparr> \<and>
   returncode \<lparr>returncode = 0, stdout = example_listing, stderr = []\<rparr> = 0 \<and>
   get_adb_devices_with_status adb_example empty_world =
     (spec_parse (py_strip example_listing),
      empty_world\<lparr>calls :=
        [(devices_cmd, Inr \<lparr>returncode = 0, stdout = example_listing, stderr = []\<rparr>)]\<rparr>) \<and>
   spec_parse (py_strip example_listing) =
     [\<lparr>id_dev = ''192.168.1.5:5555'', status_dev = ''device''\<rparr>,
      \<lparr>id_dev = ''adb-ABC123._adb-tls-connect._tcp.'', status_dev = ''offline''\<rparr>]"
proof -
  have a: "adb_example (calls empty_world) devices_cmd
     = Inr \<lparr>returncode = 0, stdout = example_listing, stderr = []\<rparr>"
    by (simp add: adb_example_def)
  have b: "returncode \<lparr>returncode = 0, stdout = example_listing, stderr = []\<rparr> = 0"
    by simp
  have c: "spec_parse (py_strip example_listing) =
     [\<lparr>id_dev = ''192.168.1.5:5555'', status_dev = ''device''\<rparr>,
      \<lparr>id_dev = ''adb-ABC123._adb-tls-connect._tcp.'', status_dev = ''offline''\<rparr>]"
    by (simp add: spec_parse_def spec_parse_lines_def spec_nonblank_def spec_record_def
        example_listing_def py_strip_def py_isspace_def split_ws.simps)
  show ?thesis
    using a b c
      get_adb_devices_with_status_parse [of adb_example empty_world
        "\<lparr>returncode = 0, stdout = example_listing, stderr = []\<rparr>"]
    by (simp add: empty_world_def)
qed

text \<open>
  Claim C8 as stated skips the first line of the captured output. The code strips the
  output first (line 22), so when the output starts with a blank line it is the first
  non-blank line that is skipped.
\<close>

theorem header_after_blank_line_counterexample:
  "adb_blank_first (calls empty_world) devices_cmd
     = Inr \<lparr>returncode = 0, stdout = listing_blank_first, stderr = []\<rparr> \<and>
   fst (get_adb_devices_with_status adb_blank_first empty_world)
     = [\<lparr>id_dev = ''R58M'', status_dev = ''device''\<rparr>] \<and>
   spec_parse listing_blank_first
     = [\<lparr>id_dev = ''List'', status_dev = ''of''\<rparr>,
        \<lparr>id_dev = ''R58M'', status_dev = ''device''\<rparr>] \<and>
   fst (get_adb_devices_with_status adb_blank_first empty_world)
     \<noteq> spec_parse listing_blank_first"
proof -
  have a: "fst (get_adb_devices_with_status adb_blank_first empty_world)
     = [\<lparr>id_dev = ''R58M'', status_dev = ''device''\<rparr>]"
    by (simp add: get_adb_devices_with_status_def get_adb_devices_body_def run_def Let_def
        adb_blank_first_def parse_devices_def listing_blank_first_def py_strip_def
        py_isspace_def split_ws.simps)
  have b: "spec_parse listing_blank_first
     = [\<lparr>id_dev = ''List'', status_dev = ''of''\<rparr>,
        \<lparr>id_dev = ''R58M'', status_dev = ''device''\<rparr>]"
    by (simp add: spec_parse_def spec_parse_lines_def spec_nonblank_def spec_record_def
        listing_blank_first_def py_isspace_def split_ws.simps)
  show ?thesis
    using a b by (simp add: adb_blank_first_def)
qed

section \<open>The pass over the offline devices\<close>

lemma good_log_Nil: "good_log []"
  by (simp add: good_log_def)

lemma shows_online_devices: "shows_online e \<Longrightarrow> fst e = devices_cmd"
  by (simp add: shows_online_def)

lemma connected_ok_not_devices: "connected_ok e \<Longrightarrow> fst e \<noteq> devices_cmd"
  by (auto simp add: connected_ok_def devices_cmd_def)

lemma good_log_Cons:
  assumes a: "\<not> connected_ok a" "fst a \<noteq> devices_cmd" and g: "good_log rest"
  shows "good_log (a # rest)"
proof -
  have g1: "\<And>i. i < length rest \<Longrightarrow> connected_ok (rest ! i) \<Longrightarrow>
              Suc i < length rest \<and> fst (rest ! Suc i) = devices_cmd"
    using g by (simp add: good_log_def)
  have g2: "\<And>i. i < length rest \<Longrightarrow> fst (rest ! i) = devices_cmd \<Longrightarrow>
              0 < i \<and> connected_ok (rest ! (i - 1))"
    using g by (simp add: good_log_def)
  have g3: "\<forall>e\<in>set (butlast rest). \<not> shows_online e"
    using g by (simp add: good_log_def)
  have p1: "\<forall>i<length (a # rest). connected_ok ((a # rest) ! i) \<longrightarrow>
          Suc i < length (a # rest) \<and> fst ((a # rest) ! Suc i) = devices_cmd"
  proof (intro allI impI)
    fix i assume i: "i < length (a # rest)" and c: "connected_ok ((a # rest) ! i)"
    show "Suc i < length (a # rest) \<and> fst ((a # rest) ! Suc i) = devices_cmd"
    proof (cases i)
      case 0
      with c a show ?thesis by simp
    next
      case (Suc j)
      with i c g1 [of j] show ?thesis by simp
    qed
  qed
  have p2: "\<forall>i<length (a # rest). fst ((a # rest) ! i) = devices_cmd \<longrightarrow>
          0 < i \<and> connected_ok ((a # rest) ! (i - 1))"
  proof (intro allI impI)
    fix i assume i: "i < length (a # rest)" and c: "fst ((a # rest) ! i) = devices_cmd"
    show "0 < i \<and> connected_ok ((a # rest) ! (i - 1))"
    proof (cases i)
      case 0
      with c a show ?thesis by simp
    next
      case (Suc j)
      with i c g2 [of j] have "0 < j \<and> connected_ok (rest ! (j - 1))"
        by simp
      then show ?thesis using Suc by (cases j) auto
    qed
  qed
  have p3: "\<forall>e\<in>set (butlast (a # rest)). \<not> shows_online e"
    using g3 a(2) by (auto dest: shows_online_devices)
  show ?thesis
    unfolding good_log_def using p1 p2 p3 by blast
qed

lemma good_log_relist:
  assumes a: "connected_ok a" and d: "fst dev = devices_cmd"
    and s: "shows_online dev \<longrightarrow> rest = []" and g: "good_log rest"
  shows "good_log (a # dev # rest)"
proof -
  have nd: "\<not> connected_ok dev"
    using d connected_ok_not_devices by blast
  have na: "fst a \<noteq> devices_cmd"
    using a by (rule connected_ok_not_devices)
  have g1: "\<And>i. i < length rest \<Longrightarrow> connected_ok (rest ! i) \<Longrightarrow>
              Suc i < length rest \<and> fst (rest ! Suc i) = devices_cmd"
    using g by (simp add: good_log_def)
  have g2: "\<And>i. i < length rest \<Longrightarrow> fst (rest ! i) = devices_cmd \<Longrightarrow>
              0 < i \<and> connected_ok (rest ! (i - 1))"
    using g by (simp add: good_log_def)
  have g3: "\<forall>e\<in>set (butlast rest). \<not> shows_online e"
    using g by (simp add: good_log_def)
  have p1: "\<forall>i<length (a # dev # rest). connected_ok ((a # dev # rest) ! i) \<longrightarrow>
          Suc i < length (a # dev # rest) \<and> fst ((a # dev # rest) ! Suc i) = devices_cmd"
  proof (intro allI impI)
    fix i assume i: "i < length (a # dev # rest)"
      and c: "connected_ok ((a # dev # rest) ! i)"
    consider "i = 0" | "i = 1" | j where "i = Suc (Suc j)"
      by (metis One_nat_def not0_implies_Suc)
    then show "Suc i < length (a # dev # rest) \<and> fst ((a # dev # rest) ! Suc i) = devices_cmd"
    proof cases
      case 1
      then show ?thesis using d by simp
    next
      case 2
      then show ?thesis using c nd by simp
    next
      case 3
      with i c g1 [of j] show ?thesis by simp
    qed
  qed
  have p2: "\<forall>i<length (a # dev # rest). fst ((a # dev # rest) ! i) = devices_cmd \<longrightarrow>
          0 < i \<and> connected_ok ((a # dev # rest) ! (i - 1))"
  proof (intro allI impI)
    fix i assume i: "i < length (a # dev # rest)"
      and c: "fst ((a # dev # rest) ! i) = devices_cmd"
    consider "i = 0" | "i = 1" | j where "i = Suc (Suc j)"
      by (metis One_nat_def not0_implies_Suc)
    then show "0 < i \<and> connected_ok ((a # dev # rest) ! (i - 1))"
    proof cases
      case 1
      then show ?thesis using c na by simp
    next
      case 2
      then show ?thesis using a by simp
    next
      case 3
      with i c g2 [of j] have "0 < j \<and> connected_ok (rest ! (j - 1))"
        by simp
      then show ?thesis using 3 by (cases j) auto
    qed
  qed
  have p3: "\<forall>e\<in>set (butlast (a # dev # rest)). \<not> shows_online e"
    using g3 na s by (auto dest: shows_online_devices)
  show ?thesis
    unfolding good_log_def using p1 p2 p3 by blast
qed


lemma calls_print [simp]: "calls (print l w) = calls w"
  by (simp add: print_def)

lemma calls_show_online [simp]: "calls (show_online i ds w) = calls w"
  by (induction ds arbitrary: i w) (simp_all add: Let_def)

lemma calls_show_offline [simp]: "calls (show_offline i ds w) = calls w"
  by (induction ds arbitrary: i w) (simp_all add: Let_def)

lemma calls_display_devices [simp]: "calls (snd (display_devices ds w)) = calls w"
  by (simp add: display_devices_def Let_def split_online_filter)

lemma calls_select_online_device [simp]:
  "calls (snd (select_online_device ds w)) = calls w"
  by (simp add: select_online_device_def input_def split: list.splits option.splits)

lemma calls_main_report [simp]: "calls (snd (main_report sel w)) = calls w"
  by (simp add: main_report_def Let_def split: option.splits)

lemma get_adb_entry:
  "calls (snd (get_adb_devices_with_status adb w))
     = calls w @ [(devices_cmd, adb (calls w) devices_cmd)] \<and>
   (filter (\<lambda>d. status_dev d = ''device'') (fst (get_adb_devices_with_status adb w)) \<noteq> []
      \<longleftrightarrow> shows_online (devices_cmd, adb (calls w) devices_cmd))"
  by (cases "adb (calls w) devices_cmd")
    (simp_all add: get_adb_devices_with_status_def get_adb_devices_body_def run_def Let_def
      shows_online_def)

lemma reconnect_round:
  "\<exists>r1. (calls (snd (reconnect_offline_device adb d w))
            = calls w @ [(disconnect_cmd (id_dev d), r1)] \<and>
          \<not> fst (reconnect_offline_device adb d w)) \<or>
        (\<exists>r2. calls (snd (reconnect_offline_device adb d w))
                 = calls w @ [(disconnect_cmd (id_dev d), r1), (connect_cmd (id_dev d), r2)] \<and>
               (fst (reconnect_offline_device adb d w)
                  \<longleftrightarrow> connected_ok (connect_cmd (id_dev d), r2)))"
  by (auto simp add: reconnect_cases Let_def connected_ok_def connect_cmd_def
      split: sum.splits)


lemma reconnect_loop_Cons:
  "reconnect_loop adb (d # ds) on w =
     (let res = reconnect_offline_device adb d w
      in if fst res then
           (let g = get_adb_devices_with_status adb (snd res);
                dd = display_devices (fst g) (snd g)
            in if fst (fst dd) \<noteq> [] then (fst (fst dd), snd dd)
               else reconnect_loop adb ds (fst (fst dd)) (snd dd))
         else reconnect_loop adb ds on (snd res))"
  by (simp add: Let_def split: prod.splits bool.splits)

lemma is_disconnect_simps [simp]:
  "is_disconnect (disconnect_cmd i)"
  "\<not> is_disconnect (connect_cmd i)"
  "\<not> is_disconnect devices_cmd"
  by (simp_all add: is_disconnect_def disconnect_cmd_def connect_cmd_def devices_cmd_def)

lemma disconnect_entry_neutral:
  "\<not> connected_ok (disconnect_cmd i, r)" "disconnect_cmd i \<noteq> devices_cmd"
  by (simp_all add: connected_ok_def disconnect_cmd_def devices_cmd_def)

lemma connect_not_devices: "connect_cmd i \<noteq> devices_cmd"
  by (simp add: connect_cmd_def devices_cmd_def)

lemma reconnect_loop_log:
  "\<exists>new k.
     calls (snd (reconnect_loop adb ds on w)) = calls w @ new \<and>
     filter is_disconnect (map fst new) = map (\<lambda>d. disconnect_cmd (id_dev d)) (take k ds) \<and>
     (k = length ds \<or> (new \<noteq> [] \<and> shows_online (last new))) \<and>
     good_log new"
proof (induction ds arbitrary: on w)
  case Nil
  have "calls (snd (reconnect_loop adb [] on w)) = calls w @ [] \<and>
     filter is_disconnect (map fst []) = map (\<lambda>d. disconnect_cmd (id_dev d)) (take 0 []) \<and>
     (0 = length ([] :: device list) \<or> (([] :: (string list \<times> outcome) list) \<noteq> [] \<and> shows_online (last []))) \<and>
     good_log []"
    by (simp add: good_log_Nil)
  then show ?case by blast
next
  case (Cons d ds)
  let ?res = "reconnect_offline_device adb d w"
  let ?disc = "disconnect_cmd (id_dev d)"
  let ?conn = "connect_cmd (id_dev d)"
  let ?f = "\<lambda>d. disconnect_cmd (id_dev d)"
  from reconnect_round [of adb d w] obtain r1 where
    alt: "(calls (snd ?res) = calls w @ [(?disc, r1)] \<and> \<not> fst ?res) \<or>
          (\<exists>r2. calls (snd ?res) = calls w @ [(?disc, r1), (?conn, r2)] \<and>
                 (fst ?res \<longleftrightarrow> connected_ok (?conn, r2)))"
    by blast
  from alt show ?case
  proof
    assume a: "calls (snd ?res) = calls w @ [(?disc, r1)] \<and> \<not> fst ?res"
    then have eq: "reconnect_loop adb (d # ds) on w = reconnect_loop adb ds on (snd ?res)"
      by (subst reconnect_loop_Cons) (simp add: Let_def)
    from Cons.IH [of on "snd ?res"] obtain new k where
      ih: "calls (snd (reconnect_loop adb ds on (snd ?res))) = calls (snd ?res) @ new"
        "filter is_disconnect (map fst new) = map ?f (take k ds)" "good_log new"
        "k = length ds \<or> (new \<noteq> [] \<and> shows_online (last new))"
      by blast
    have "calls (snd (reconnect_loop adb (d # ds) on w)) = calls w @ ((?disc, r1) # new)"
      using eq ih(1) a by simp
    moreover have "Suc k = length (d # ds) \<or>
        ((?disc, r1) # new \<noteq> [] \<and> shows_online (last ((?disc, r1) # new)))"
      using ih(4) by auto
    moreover have "filter is_disconnect (map fst ((?disc, r1) # new))
                     = map ?f (take (Suc k) (d # ds))"
      using ih(2) by simp
    moreover have "good_log ((?disc, r1) # new)"
      by (rule good_log_Cons) (use ih(3) in \<open>simp_all add: disconnect_entry_neutral\<close>)
    ultimately show ?thesis by blast
  next
    assume "\<exists>r2. calls (snd ?res) = calls w @ [(?disc, r1), (?conn, r2)] \<and>
                 (fst ?res \<longleftrightarrow> connected_ok (?conn, r2))"
    then obtain r2 where
      b: "calls (snd ?res) = calls w @ [(?disc, r1), (?conn, r2)]"
        "fst ?res \<longleftrightarrow> connected_ok (?conn, r2)"
      by blast
    show ?thesis
    proof (cases "fst ?res")
      case False
      then have eq: "reconnect_loop adb (d # ds) on w = reconnect_loop adb ds on (snd ?res)"
        by (subst reconnect_loop_Cons) (simp add: Let_def)
      from Cons.IH [of on "snd ?res"] obtain new k where
        ih: "calls (snd (reconnect_loop adb ds on (snd ?res))) = calls (snd ?res) @ new"
          "filter is_disconnect (map fst new) = map ?f (take k ds)" "good_log new"
        "k = length ds \<or> (new \<noteq> [] \<and> shows_online (last new))"
        by blast
      have "calls (snd (reconnect_loop adb (d # ds) on w))
              = calls w @ ((?disc, r1) # (?conn, r2) # new)"
        using eq ih(1) b(1) by simp
      moreover have "Suc k = length (d # ds) \<or>
          ((?disc, r1) # (?conn, r2) # new \<noteq> [] \<and>
           shows_online (last ((?disc, r1) # (?conn, r2) # new)))"
        using ih(4) by auto
      moreover have "filter is_disconnect (map fst ((?disc, r1) # (?conn, r2) # new))
                       = map ?f (take (Suc k) (d # ds))"
        using ih(2) by simp
      moreover have "good_log ((?disc, r1) # (?conn, r2) # new)"
      proof -
        have "good_log ((?conn, r2) # new)"
          by (rule good_log_Cons) (use ih(3) False b(2) in \<open>simp_all add: connect_not_devices\<close>)
        then show ?thesis
          by (rule good_log_Cons [rotated 2]) (simp_all add: disconnect_entry_neutral)
      qed
      ultimately show ?thesis by blast
    next
      case True
      let ?g = "get_adb_devices_with_status adb (snd ?res)"
      let ?dd = "display_devices (fst ?g) (snd ?g)"
      let ?dev = "(devices_cmd, adb (calls (snd ?res)) devices_cmd)"
      have ok: "connected_ok (?conn, r2)"
        using True b(2) by simp
      have cg: "calls (snd ?dd) = calls w @ [(?disc, r1), (?conn, r2), ?dev]"
        using get_adb_entry [of adb "snd ?res"] b(1) by simp
      have on: "fst (fst ?dd) \<noteq> [] \<longleftrightarrow> shows_online ?dev"
        using get_adb_entry [of adb "snd ?res"] by (simp add: fst_display_devices)
      show ?thesis
      proof (cases "fst (fst ?dd) \<noteq> []")
        case True
        with \<open>fst ?res\<close> have eq: "reconnect_loop adb (d # ds) on w = (fst (fst ?dd), snd ?dd)"
          by (subst reconnect_loop_Cons) (simp add: Let_def)
        have "calls (snd (reconnect_loop adb (d # ds) on w))
                = calls w @ [(?disc, r1), (?conn, r2), ?dev]"
          using eq cg by simp
        moreover have "1 = length (d # ds) \<or>
            ([(?disc, r1), (?conn, r2), ?dev] \<noteq> [] \<and>
             shows_online (last [(?disc, r1), (?conn, r2), ?dev]))"
          using True on by simp
        moreover have "filter is_disconnect (map fst [(?disc, r1), (?conn, r2), ?dev])
                         = map ?f (take 1 (d # ds))"
          by simp
        moreover have "good_log [(?disc, r1), (?conn, r2), ?dev]"
        proof -
          have "good_log [(?conn, r2), ?dev]"
            by (rule good_log_relist) (use ok in \<open>simp_all add: good_log_Nil\<close>)
          then show ?thesis
            by (rule good_log_Cons [rotated 2]) (simp_all add: disconnect_entry_neutral)
        qed
        ultimately show ?thesis by blast
      next
        case False
        with \<open>fst ?res\<close> have eq: "reconnect_loop adb (d # ds) on w
            = reconnect_loop adb ds (fst (fst ?dd)) (snd ?dd)"
          by (subst reconnect_loop_Cons) (simp add: Let_def)
        from Cons.IH [of "fst (fst ?dd)" "snd ?dd"] obtain new k where
          ih: "calls (snd (reconnect_loop adb ds (fst (fst ?dd)) (snd ?dd)))
                 = calls (snd ?dd) @ new"
            "filter is_disconnect (map fst new) = map ?f (take k ds)" "good_log new"
        "k = length ds \<or> (new \<noteq> [] \<and> shows_online (last new))"
          by blast
        have ns: "\<not> shows_online ?dev"
          using False on by simp
        have "calls (snd (reconnect_loop adb (d # ds) on w))
                = calls w @ ((?disc, r1) # (?conn, r2) # ?dev # new)"
          using eq ih(1) cg by simp
        moreover have "Suc k = length (d # ds) \<or>
            ((?disc, r1) # (?conn, r2) # ?dev # new \<noteq> [] \<and>
             shows_online (last ((?disc, r1) # (?conn, r2) # ?dev # new)))"
          using ih(4) by auto
        moreover have "filter is_disconnect (map fst ((?disc, r1) # (?conn, r2) # ?dev # new))
                         = map ?f (take (Suc k) (d # ds))"
          using ih(2) by simp
        moreover have "good_log ((?disc, r1) # (?conn, r2) # ?dev # new)"
        proof -
          have "good_log ((?conn, r2) # ?dev # new)"
            by (rule good_log_relist) (use ok ns ih(3) in simp_all)
          then show ?thesis
            by (rule good_log_Cons [rotated 2]) (simp_all add: disconnect_entry_neutral)
        qed
        ultimately show ?thesis by blast
      qed
    qed
  qed
qed


lemma stdin_print [simp]: "stdin (print l w) = stdin w"
  by (simp add: print_def)

lemma stdin_show_online [simp]: "stdin (show_online i ds w) = stdin w"
  by (induction ds arbitrary: i w) (simp_all add: Let_def)

lemma stdin_show_offline [simp]: "stdin (show_offline i ds w) = stdin w"
  by (induction ds arbitrary: i w) (simp_all add: Let_def)

lemma stdin_display_devices [simp]: "stdin (snd (display_devices ds w)) = stdin w"
  by (simp add: display_devices_def Let_def split_online_filter)

text \<open>
  Claim C6, as amended. When the first listing shows no online device and at least one
  offline device, and the user answers \<open>y\<close>, the commands that \<open>main\<close> runs after
  the first listing are these: the disconnect commands are those of the offline
  devices, in order, up to some device, and every offline device is tried unless the
  last command is a listing with an online device; each successful reconnection is
  followed at once by a listing; a listing comes only right after a successful
  reconnection, so there is none after a failed attempt; and no command follows a
  listing that shows an online device.
\<close>

theorem main_reconnect_pass:
  assumes l: "adb (calls w) devices_cmd = Inr r" "returncode r = 0"
    and off: "parse_devices (stdout r) \<noteq> []"
    and non: "filter (\<lambda>d. status_dev d = ''device'') (parse_devices (stdout r)) = []"
    and yes: "stdin w = choice # rest" "py_lower choice = ''y''"
  shows "\<exists>new k.
     calls (snd (main adb w)) = calls w @ (devices_cmd, Inr r) # new \<and>
     filter is_disconnect (map fst new)
       = map (\<lambda>d. disconnect_cmd (id_dev d)) (take k (parse_devices (stdout r))) \<and>
     (k = length (parse_devices (stdout r)) \<or> (new \<noteq> [] \<and> shows_online (last new))) \<and>
     (\<forall>i<length new. connected_ok (new ! i) \<longrightarrow>
         Suc i < length new \<and> fst (new ! Suc i) = devices_cmd) \<and>
     (\<forall>i<length new. fst (new ! i) = devices_cmd \<longrightarrow>
         0 < i \<and> connected_ok (new ! (i - 1))) \<and>
     (\<forall>e\<in>set (butlast new). \<not> shows_online e)"
proof -
  let ?ds = "parse_devices (stdout r)"
  define w1 where "w1 = w\<lparr>calls := calls w @ [(devices_cmd, Inr r)]\<rparr>"
  have g: "get_adb_devices_with_status adb w = (?ds, w1)"
    using l by (simp add: get_adb_devices_with_status_def get_adb_devices_body_def run_def
        Let_def w1_def)
  define w2 where "w2 = snd (display_devices ?ds w1)"
  have allo: "filter (\<lambda>d. status_dev d \<noteq> ''device'') ?ds = ?ds"
    using non by (simp add: filter_empty_conv filter_id_conv)
  have d: "display_devices ?ds w1 = (([], ?ds), w2)"
    using fst_display_devices [of ?ds w1] non allo by (simp add: w2_def prod_eq_iff)
  have c2: "calls w2 = calls w1" and s2: "stdin w2 = stdin w1"
    by (simp_all add: w2_def)
  define w3 where "w3 = (print Prompt_reconnect (print All_offline w2))\<lparr>stdin := rest\<rparr>"
  have i: "input Prompt_reconnect (print All_offline w2) = (Inr choice, w3)"
    using yes(1) s2 by (simp add: input_def w3_def w1_def)
  have c3: "calls w3 = calls w @ [(devices_cmd, Inr r)]"
    using c2 by (simp add: w3_def w1_def)
  define lp where "lp = reconnect_loop adb ?ds [] w3"
  have mr: "main_reconnect adb [] ?ds w2 = (Inr (fst lp), snd lp)"
    using off yes(2) i by (simp add: main_reconnect_def lp_def case_prod_beta)
  have m: "calls (snd (main adb w)) = calls (snd lp)"
  proof (cases "select_online_device (fst lp) (snd lp)")
    case (Pair x w4)
    have c4: "calls w4 = calls (snd lp)"
      using calls_select_online_device [of "fst lp" "snd lp"] Pair by simp
    show ?thesis
    proof (cases x)
      case (Inl e)
      with Pair g d mr off c4 show ?thesis
        by (simp add: main_def)
    next
      case (Inr sel)
      with Pair g d mr off c4 show ?thesis
        using calls_main_report [of sel w4] by (simp add: main_def case_prod_beta)
    qed
  qed
  from reconnect_loop_log [of adb ?ds "[]" w3] obtain new k where
    lg: "calls (snd lp) = calls w3 @ new"
      "filter is_disconnect (map fst new) = map (\<lambda>d. disconnect_cmd (id_dev d)) (take k ?ds)"
      "k = length ?ds \<or> (new \<noteq> [] \<and> shows_online (last new))"
      "good_log new"
    unfolding lp_def by blast
  have "calls (snd (main adb w)) = calls w @ (devices_cmd, Inr r) # new"
    using m lg(1) c3 by simp
  then show ?thesis
    using lg(2,3,4) unfolding good_log_def by blast
qed

lemmas main_eval = main_def get_adb_devices_with_status_def get_adb_devices_body_def run_def
  display_devices_def analyze_device_def get_is_encrypted_def main_reconnect_def input_def
  print_def py_lower_def py_lower_char_def reconnect_cases select_online_device_def
  main_report_def parse_devices_def py_strip_def py_isspace_def split_ws.simps Let_def
  devices_cmd_def disconnect_cmd_def connect_cmd_def

lemma parse_listing_usb_offline: "parse_devices listing_usb_offline = [usb_device]"
  by (simp add: parse_devices_def listing_usb_offline_def usb_device_def py_strip_def
      py_isspace_def split_ws.simps)

text \<open>
  Claim C6 as stated has the devices listed again after each reconnection attempt.
  With one offline device that has a serial number for its id, the attempt fails and
  the disconnect command is the last command run: no listing follows it.
\<close>

theorem no_relist_after_failed_attempt_counterexample:
  "parse_devices listing_usb_offline = [usb_device] \<and>
   status_dev usb_device \<noteq> ''device'' \<and>
   stdin confirm_world = [''y''] \<and>
   map fst (calls (snd (main adb_usb_offline confirm_world)))
     = [devices_cmd, disconnect_cmd ''R58M''] \<and>
   fst (main adb_usb_offline confirm_world) = Inr None"
  by (simp add: parse_listing_usb_offline)
    (simp add: main_eval adb_usb_offline_def confirm_world_def listing_usb_offline_def
      usb_device_def)

theorem main_reconnect_pass_witness:
  "adb_wifi_back (calls confirm_world) devices_cmd
     = Inr \<lparr>returncode = 0, stdout = listing_wifi_offline, stderr = []\<rparr> \<and>
   returncode \<lparr>returncode = 0, stdout = listing_wifi_offline, stderr = []\<rparr> = 0 \<and>
   parse_devices listing_wifi_offline = [wifi_device] \<and>
   filter (\<lambda>d. status_dev d = ''device'') (parse_devices listing_wifi_offline) = [] \<and>
   stdin confirm_world = [''y''] \<and>
   py_lower ''y'' = ''y'' \<and>
   map fst (calls (snd (main adb_wifi_back confirm_world)))
     = [devices_cmd, disconnect_cmd ''10.0.0.2:5555'', connect_cmd ''10.0.0.2:5555'',
        devices_cmd] \<and>
   fst (main adb_wifi_back confirm_world) = Inr (Some ''10.0.0.2:5555'')"
proof -
  let ?r = "\<lparr>returncode = 0, stdout = listing_wifi_offline, stderr = []\<rparr>"
  have h1: "adb_wifi_back (calls confirm_world) devices_cmd = Inr ?r"
    by (simp add: adb_wifi_back_def confirm_world_def)
  have h2: "returncode ?r = 0"
    by simp
  have p: "parse_devices listing_wifi_offline = [wifi_device]"
    by (simp add: parse_devices_def listing_wifi_offline_def wifi_device_def py_strip_def
        py_isspace_def split_ws.simps)
  have h3: "parse_devices (stdout ?r) \<noteq> []"
    by (simp add: p)
  have h4: "filter (\<lambda>d. status_dev d = ''device'') (parse_devices (stdout ?r)) = []"
    by (simp add: p wifi_device_def)
  have h5: "stdin confirm_world = ''y'' # []"
    by (simp add: confirm_world_def)
  have h6: "py_lower ''y'' = ''y''"
    by (simp add: py_lower_def py_lower_char_def)
  have ev: "map fst (calls (snd (main adb_wifi_back confirm_world)))
     = [devices_cmd, disconnect_cmd ''10.0.0.2:5555'', connect_cmd ''10.0.0.2:5555'',
        devices_cmd] \<and>
   fst (main adb_wifi_back confirm_world) = Inr (Some ''10.0.0.2:5555'')"
    by (simp add: main_eval adb_wifi_back_def confirm_world_def listing_wifi_offline_def
        listing_wifi_online_def)
  show ?thesis
    using main_reconnect_pass [where adb = adb_wifi_back and w = confirm_world
        and r = ?r and choice = "''y''" and rest = "[]", OF h1 h2 h3 h4 h5 h6]
      h1 h2 p h4 h5 h6 ev
    by simp
qed

end
